theory Spec2Isabelle
  imports Main "HOL-Library.AList"
begin

section \<open>Python values, exceptions and the log\<close>

text \<open>
  The script \<^verbatim>\<open>redis_backup.py\<close> is modelled function by function. A Python value that a
  function of the script returns is a \<open>pyval\<close>; \<open>truthy\<close> is Python's truth test, as used
  by \<^verbatim>\<open>if not rdb_bak_path\<close>.
\<close>

datatype pyval = PyNone | PyStr string | PyInt int

fun truthy :: "pyval \<Rightarrow> bool" where
  "truthy PyNone = False"
| "truthy (PyStr s) = (s \<noteq> [])"
| "truthy (PyInt i) = (i \<noteq> 0)"

text \<open>
  An exception that leaves a function is the \<open>Inl\<close> of its result. \<open>SystemExit n\<close> is
  \<^verbatim>\<open>sys.exit(n)\<close>; \<open>ShutilError\<close> is \<^verbatim>\<open>shutil.Error\<close>. The script has no
  \<^verbatim>\<open>try\<close> statement, so every exception propagates to the interpreter.
\<close>

datatype error = OSError | IOError | ShutilError | AssertionError | TypeError | SystemExit int

text \<open>
  A log entry is one call of the logger: its level, the format string of the call (without
  a trailing newline) and the string and integer arguments formatted into it. Arguments
  that are times or durations are left out.
\<close>

datatype level = INFO | FATAL

type_synonym entry = "level \<times> string \<times> pyval list"

section \<open>The file system\<close>

text \<open>
  A file system is an association list from path strings to nodes, in the order in which
  \<^verbatim>\<open>os.listdir\<close> reports entries. A regular file has its bytes and its modification
  time, a directory its modification time. Paths are compared as strings (no symbolic
  links, no \<^verbatim>\<open>.\<close> or \<^verbatim>\<open>..\<close>, no current directory), and permissions are not
  modelled. Modification times are integers (a fixed resolution of the clock).
\<close>

datatype node = File (content: string) (mtime: int) | Dir (mtime: int)

type_synonym fs = "(string \<times> node) list"

record world =
  disk :: fs
  log :: "entry list"

definition logger :: "level \<Rightarrow> string \<Rightarrow> pyval list \<Rightarrow> world \<Rightarrow> world" where
  "logger l fmt args w = w\<lparr>log := log w @ [(l, fmt, args)]\<rparr>"

definition path_exists :: "fs \<Rightarrow> string \<Rightarrow> bool" where
  "path_exists fs p = (map_of fs p \<noteq> None)"

definition path_isdir :: "fs \<Rightarrow> string \<Rightarrow> bool" where
  "path_isdir fs p = (case map_of fs p of Some (Dir _) \<Rightarrow> True | _ \<Rightarrow> False)"

definition path_isfile :: "fs \<Rightarrow> string \<Rightarrow> bool" where
  "path_isfile fs p = (case map_of fs p of Some (File _ _) \<Rightarrow> True | _ \<Rightarrow> False)"

definition path_getmtime :: "fs \<Rightarrow> string \<Rightarrow> error + int" where
  "path_getmtime fs p = (case map_of fs p of None \<Rightarrow> Inl OSError | Some n \<Rightarrow> Inr (mtime n))"

definition path_getsize :: "fs \<Rightarrow> string \<Rightarrow> error + int" where
  "path_getsize fs p =
     (case map_of fs p of
        None \<Rightarrow> Inl OSError
      | Some (File c _) \<Rightarrow> Inr (int (length c))
      | Some (Dir _) \<Rightarrow> Inr 0)"

text \<open>\<^verbatim>\<open>posixpath.join\<close> of two arguments, \<^verbatim>\<open>dirname\<close> and \<^verbatim>\<open>basename\<close>.\<close>

definition path_join :: "string \<Rightarrow> string \<Rightarrow> string" where
  "path_join a b =
     (if b \<noteq> [] \<and> hd b = CHR ''/'' then b
      else if a = [] \<or> last a = CHR ''/'' then a @ b
      else a @ ''/'' @ b)"

definition rstrip_slash :: "string \<Rightarrow> string" where
  "rstrip_slash s = rev (dropWhile (\<lambda>c. c = CHR ''/'') (rev s))"

definition path_dirname :: "string \<Rightarrow> string" where
  "path_dirname p =
     (let head = rev (dropWhile (\<lambda>c. c \<noteq> CHR ''/'') (rev p))
      in if head \<noteq> [] \<and> \<not> list_all (\<lambda>c. c = CHR ''/'') head then rstrip_slash head else head)"

definition path_basename :: "string \<Rightarrow> string" where
  "path_basename p = rev (takeWhile (\<lambda>c. c \<noteq> CHR ''/'') (rev p))"

text \<open>
  \<^verbatim>\<open>os.listdir(d)\<close>: the names of the entries directly inside \<open>d\<close>, that is of the paths
  \<open>d/name\<close> where \<open>name\<close> is not empty and has no slash. It raises when \<open>d\<close> is not a
  directory.
\<close>

definition is_entry :: "string \<Rightarrow> string \<Rightarrow> bool" where
  "is_entry d p \<longleftrightarrow>
     length d + 1 < length p \<and> take (length d + 1) p = d @ ''/'' \<and>
     CHR ''/'' \<notin> set (drop (length d + 1) p)"

definition os_listdir :: "fs \<Rightarrow> string \<Rightarrow> error + string list" where
  "os_listdir fs d =
     (if path_isdir fs d
      then Inr (map (drop (length d + 1)) (filter (is_entry d) (map fst fs)))
      else Inl OSError)"

text \<open>\<^verbatim>\<open>os.remove\<close> deletes a regular file and raises on a directory or a missing path.\<close>

definition os_remove :: "fs \<Rightarrow> string \<Rightarrow> error + fs" where
  "os_remove fs p = (if path_isfile fs p then Inr (AList.delete p fs) else Inl OSError)"

text \<open>
  \<^verbatim>\<open>os.makedirs(d)\<close> creates \<open>d\<close> and its missing ancestors (the prefixes of \<open>d\<close> that
  end before a slash), and raises when \<open>d\<close> exists or an ancestor is a regular file. The
  new directories get the modification time \<open>t\<close>.
\<close>

definition dir_chain :: "string \<Rightarrow> string list" where
  "dir_chain d = [take i d. i \<leftarrow> [1..<length d], d ! i = CHR ''/''] @ [d]"

fun mkdir_chain :: "int \<Rightarrow> fs \<Rightarrow> string list \<Rightarrow> error + fs" where
  "mkdir_chain t fs [] = Inr fs"
| "mkdir_chain t fs (p # ps) =
     (case map_of fs p of
        None \<Rightarrow> mkdir_chain t (fs @ [(p, Dir t)]) ps
      | Some (Dir _) \<Rightarrow> mkdir_chain t fs ps
      | Some (File _ _) \<Rightarrow> Inl OSError)"

definition os_makedirs :: "int \<Rightarrow> fs \<Rightarrow> string \<Rightarrow> error + fs" where
  "os_makedirs t fs d = (if path_exists fs d then Inl OSError else mkdir_chain t fs (dir_chain d))"

text \<open>
  \<^verbatim>\<open>shutil.copy2(src, dst)\<close>: a destination that is a directory stands for the file of
  the source's base name inside it; copying a file onto itself raises \<^verbatim>\<open>shutil.Error\<close>;
  the source must be a regular file and the destination's parent a directory. The copy
  has the source's bytes and modification time.
\<close>

definition shutil_copy2 :: "fs \<Rightarrow> string \<Rightarrow> string \<Rightarrow> error + fs" where
  "shutil_copy2 fs src dst =
     (let dst' = (if path_isdir fs dst then path_join dst (path_basename src) else dst)
      in if src = dst' \<and> path_exists fs src then Inl ShutilError
         else case map_of fs src of
                Some (File c t) \<Rightarrow>
                  if path_isdir fs dst' \<or> \<not> path_isdir fs (path_dirname dst') then Inl IOError
                  else Inr (AList.update dst' (File c t) fs)
              | _ \<Rightarrow> Inl IOError)"

section \<open>The environment of a run\<close>

text \<open>
  What the script takes from libraries and from the machine it runs on:
  \<^item> \<open>strftime fmt t\<close> is \<^verbatim>\<open>datetime.fromtimestamp(t).strftime(fmt)\<close>;
  \<^item> \<open>md5 bytes\<close> is the MD5 digest of all the bytes fed to a \<^verbatim>\<open>hashlib.md5()\<close> object;
  \<^item> \<open>rewritten p\<close> is what the store writes into its data file \<open>p\<close> while the script is
    between \<^verbatim>\<open>shutil.copy2\<close> and \<^verbatim>\<open>checksum_compare\<close> (the store is live): the new
    bytes and modification time, or \<open>None\<close> when it leaves the file alone;
  \<^item> \<open>mkdir_time\<close> is the modification time given to a directory the script creates.
\<close>

record env =
  strftime :: "string \<Rightarrow> int \<Rightarrow> string"
  md5 :: "string \<Rightarrow> string"
  rewritten :: "string \<Rightarrow> (string \<times> int) option"
  mkdir_time :: int

section \<open>Checksums\<close>

text \<open>
  \<^verbatim>\<open>file_md5\<close>, lines 21 to 30: the loop reads blocks of \<open>blocksize\<close> bytes until a read
  returns nothing and feeds each block to the digest object. \<open>fed\<close> is what the object
  has been fed so far and \<open>f\<close> the unread rest of the file.
\<close>

function file_md5_loop :: "nat \<Rightarrow> string \<Rightarrow> string \<Rightarrow> string" where
  "file_md5_loop blocksize f fed =
     (let data = take blocksize f
      in if data = [] then fed
         else file_md5_loop blocksize (drop blocksize f) (fed @ data))"
  by pat_completeness auto
termination
  by (relation "measure (\<lambda>(blocksize, f, fed). length f)") auto

declare file_md5_loop.simps [simp del]

definition file_md5 :: "env \<Rightarrow> fs \<Rightarrow> string \<Rightarrow> nat \<Rightarrow> error + string" where
  "file_md5 e fs filename blocksize =
     (case map_of fs filename of
        Some (File c _) \<Rightarrow> Inr (md5 e (file_md5_loop blocksize c []))
      | _ \<Rightarrow> Inl IOError)"

text \<open>\<^verbatim>\<open>checksum_compare\<close>, lines 33 to 37; \<^verbatim>\<open>file_md5\<close> is called with its default block size.\<close>

definition checksum_compare :: "env \<Rightarrow> fs \<Rightarrow> string \<Rightarrow> string \<Rightarrow> error + bool" where
  "checksum_compare e fs src dst =
     (if \<not> (path_isfile fs src \<and> path_isfile fs dst) then Inl AssertionError
      else case file_md5 e fs src (2 ^ 20) of
             Inl x \<Rightarrow> Inl x
           | Inr a \<Rightarrow> (case file_md5 e fs dst (2 ^ 20) of
                        Inl x \<Rightarrow> Inl x
                      | Inr b \<Rightarrow> Inr (a = b)))"

section \<open>The verified copy\<close>

text \<open>
  \<^verbatim>\<open>copy_data_file\<close>, lines 104 to 112: the copy, the comparison of the checksums and the
  two returns. Between the copy and the comparison the store may rewrite the data file.
\<close>

definition copy_and_check :: "env \<Rightarrow> world \<Rightarrow> string \<Rightarrow> string \<Rightarrow> (error + pyval) \<times> world" where
  "copy_and_check e w data_file backup_path =
     (case shutil_copy2 (disk w) data_file backup_path of
        Inl x \<Rightarrow> (Inl x, w)
      | Inr fs1 \<Rightarrow>
          let fs2 = (case rewritten e data_file of
                       None \<Rightarrow> fs1
                     | Some (c, t) \<Rightarrow> AList.update data_file (File c t) fs1);
              w2 = w\<lparr>disk := fs2\<rparr>
          in case checksum_compare e fs2 data_file backup_path of
               Inl x \<Rightarrow> (Inl x, w2)
             | Inr same \<Rightarrow>
                 if \<not> same
                 then (Inr PyNone,
                       logger FATAL ''failed to copy dbfile %s, checksum compare failed.''
                         [PyStr data_file] w2)
                 else (case path_getsize fs2 backup_path of
                         Inl x \<Rightarrow> (Inl x, w2)
                       | Inr n \<Rightarrow>
                           (Inr (PyStr backup_path),
                            logger INFO ''backup %s created. %s bytes, checksum ok!''
                              [PyStr backup_path, PyInt n] w2)))"

text \<open>
  \<^verbatim>\<open>copy_data_file\<close>, lines 77 to 112. The parameter \<open>port\<close> is not used by the body,
  as in the source.
\<close>

definition copy_data_file ::
  "env \<Rightarrow> world \<Rightarrow> string \<Rightarrow> string \<Rightarrow> string \<Rightarrow> int \<Rightarrow> string \<Rightarrow> (error + pyval) \<times> world" where
  "copy_data_file e w data_file backup_dir backup_filename port file_type =
     (case path_getmtime (disk w) data_file of
        Inl x \<Rightarrow> (Inl x, w)
      | Inr df_mtime \<Rightarrow>
          let backup_path =
                path_join backup_dir (strftime e backup_filename df_mtime @ ''.'' @ file_type)
          in if \<not> path_exists (disk w) backup_dir then
               (case os_makedirs (mkdir_time e) (disk w) backup_dir of
                  Inl x \<Rightarrow> (Inl x, w)
                | Inr fs' \<Rightarrow> copy_and_check e (w\<lparr>disk := fs'\<rparr>) data_file backup_path)
             else if \<not> path_isdir (disk w) backup_dir then
               (Inr PyNone,
                logger FATAL ''backupdir: %s is not a directory.'' [PyStr backup_dir] w)
             else if path_exists (disk w) backup_path then
               (Inr PyNone,
                logger FATAL ''backupfile: %s already exists.'' [PyStr backup_path] w)
             else copy_and_check e w data_file backup_path)"

definition copy_rdb ::
  "env \<Rightarrow> world \<Rightarrow> string \<Rightarrow> string \<Rightarrow> string \<Rightarrow> int \<Rightarrow> (error + pyval) \<times> world" where
  "copy_rdb e w rdb backup_dir backup_filename port =
     copy_data_file e w rdb backup_dir backup_filename port ''rdb''"

definition copy_aof ::
  "env \<Rightarrow> world \<Rightarrow> string \<Rightarrow> string \<Rightarrow> string \<Rightarrow> int \<Rightarrow> (error + pyval) \<times> world" where
  "copy_aof e w aof backup_dir backup_filename port =
     copy_data_file e w aof backup_dir backup_filename port ''aof''"

section \<open>Retention\<close>

text \<open>Python's \<^verbatim>\<open>'%d' % n\<close> and \<^verbatim>\<open>str.endswith\<close>.\<close>

fun str_nat :: "nat \<Rightarrow> string" where
  "str_nat n =
     (if n < 10 then [''0123456789'' ! n]
      else str_nat (n div 10) @ [''0123456789'' ! (n mod 10)])"

declare str_nat.simps [simp del]

definition str_int :: "int \<Rightarrow> string" where
  "str_int i = (if i < 0 then CHR ''-'' # str_nat (nat (- i)) else str_nat (nat i))"

definition endswith :: "string \<Rightarrow> string \<Rightarrow> bool" where
  "endswith f s \<longleftrightarrow> length s \<le> length f \<and> drop (length f - length s) f = s"

definition file_suffix :: "int \<Rightarrow> string \<Rightarrow> string" where
  "file_suffix port file_type = ''(port_'' @ str_int port @ '').'' @ file_type"

text \<open>Lines 152 to 156: the loop that pairs every matching name with its modification time.\<close>

fun files_time_loop ::
  "fs \<Rightarrow> string \<Rightarrow> string list \<Rightarrow> (string \<times> int) list \<Rightarrow> error + (string \<times> int) list" where
  "files_time_loop fs backup_dir [] files_time = Inr files_time"
| "files_time_loop fs backup_dir (filename # rest) files_time =
     (let fp = backup_dir @ ''/'' @ filename
      in case path_getmtime fs fp of
           Inl x \<Rightarrow> Inl x
         | Inr t \<Rightarrow> files_time_loop fs backup_dir rest (files_time @ [(fp, t)]))"

text \<open>Lines 159 to 161: the loop that deletes; it stops at the first deletion that raises.\<close>

fun remove_loop :: "world \<Rightarrow> (string \<times> int) list \<Rightarrow> (error + unit) \<times> world" where
  "remove_loop w [] = (Inr (), w)"
| "remove_loop w (fp # rest) =
     (let w1 = logger INFO ''delete %s'' [PyStr (fst fp)] w
      in case os_remove (disk w1) (fst fp) of
           Inl x \<Rightarrow> (Inl x, w1)
         | Inr fs' \<Rightarrow> remove_loop (w1\<lparr>disk := fs'\<rparr>) rest)"

text \<open>
  \<^verbatim>\<open>clean_backup_dir\<close>, lines 137 to 164. The list method \<^verbatim>\<open>sort\<close> is stable and
  ascending, as \<open>sort_key\<close> is; the slice \<^verbatim>\<open>files_time[:n_files - max_backups]\<close> is taken
  where \<open>n_files - max_backups\<close> is positive. Both returns of the function return
  \<^verbatim>\<open>None\<close>.
\<close>

definition clean_backup_dir ::
  "world \<Rightarrow> string \<Rightarrow> int \<Rightarrow> int \<Rightarrow> string \<Rightarrow> (error + pyval) \<times> world" where
  "clean_backup_dir w backup_dir max_backups port file_type =
     (case os_listdir (disk w) backup_dir of
        Inl x \<Rightarrow> (Inl x, w)
      | Inr names \<Rightarrow>
          let files = filter (\<lambda>f. endswith f (file_suffix port file_type)) names;
              n_files = int (length files)
          in if n_files \<le> max_backups then (Inr PyNone, w)
             else
               let w1 = logger INFO
                          ''number of backups(%d) exceeds limit(%d), deleting old backups.''
                          [PyInt n_files, PyInt max_backups] w
               in case files_time_loop (disk w1) backup_dir files [] of
                    Inl x \<Rightarrow> (Inl x, w1)
                  | Inr files_time \<Rightarrow>
                      (case remove_loop w1
                              (take (nat (n_files - max_backups)) (sort_key snd files_time)) of
                         (Inl x, w2) \<Rightarrow> (Inl x, w2)
                       | (Inr u, w2) \<Rightarrow>
                           (case os_listdir (disk w2) backup_dir of
                              Inl x \<Rightarrow> (Inl x, w2)
                            | Inr names2 \<Rightarrow>
                                if int (length (filter (\<lambda>f. endswith f (file_suffix port file_type))
                                                  names2)) = max_backups
                                then (Inr PyNone, w2)
                                else (Inl AssertionError, w2))))"

definition clean_rdb_backup :: "world \<Rightarrow> string \<Rightarrow> int \<Rightarrow> int \<Rightarrow> (error + pyval) \<times> world" where
  "clean_rdb_backup w backup_dir max_backups port =
     clean_backup_dir w backup_dir max_backups port ''rdb''"

definition clean_aof_backup :: "world \<Rightarrow> string \<Rightarrow> int \<Rightarrow> int \<Rightarrow> (error + pyval) \<times> world" where
  "clean_aof_backup w backup_dir max_backups port =
     clean_backup_dir w backup_dir max_backups port ''aof''"

text \<open>
  For the statements about retention: the backups of a port and file type in a directory
  are the paths \<^verbatim>\<open>fp\<close> of line 154 for the names that the comprehension of lines 144
  and 163 selects; \<open>is_backup\<close> says the same of one path. \<open>mtime_at\<close> is the
  modification time of an existing path.
\<close>

definition backup_paths :: "fs \<Rightarrow> string \<Rightarrow> int \<Rightarrow> string \<Rightarrow> string list" where
  "backup_paths fs backup_dir port file_type =
     (case os_listdir fs backup_dir of
        Inl x \<Rightarrow> []
      | Inr names \<Rightarrow>
          map (\<lambda>filename. backup_dir @ ''/'' @ filename)
            (filter (\<lambda>f. endswith f (file_suffix port file_type)) names))"

definition is_backup :: "string \<Rightarrow> string \<Rightarrow> string \<Rightarrow> bool" where
  "is_backup backup_dir sfx p \<longleftrightarrow>
     is_entry backup_dir p \<and> endswith (drop (length backup_dir + 1) p) sfx"

definition mtime_at :: "fs \<Rightarrow> string \<Rightarrow> int" where
  "mtime_at fs p = (case map_of fs p of Some n \<Rightarrow> mtime n | None \<Rightarrow> 0)"

section \<open>Triggering the save\<close>

text \<open>
  The calls \<^verbatim>\<open>bgsave_and_wait\<close> makes to the outside: a reading of the clock
  (\<^verbatim>\<open>datetime.now()\<close>), the store's \<^verbatim>\<open>lastsave\<close> and \<^verbatim>\<open>bgsave\<close>, and \<^verbatim>\<open>sleep(1)\<close>.
\<close>

datatype call = NOW | LASTSAVE | BGSAVE | SLEEP

text \<open>
  The store and the clock, as the script sees them: the two configuration values it
  asks for, and the reply to a call of \<^verbatim>\<open>lastsave\<close>, of \<^verbatim>\<open>bgsave\<close> and of the clock (in
  microseconds) as a function of the calls \<^verbatim>\<open>bgsave_and_wait\<close> has made before it, in
  the order in which it made them. So a store may answer \<^verbatim>\<open>lastsave\<close> differently before
  and after the trigger, and the order of the calls in the source is part of the model.
  Errors of the connection are not modelled.
\<close>

record redis =
  config_dir :: string
  config_dbfilename :: string
  lastsave :: "call list \<Rightarrow> int"
  bgsave :: "call list \<Rightarrow> bool"
  now :: "call list \<Rightarrow> int"

text \<open>
  The loop of lines 47 to 52, entered after the calls \<open>h\<close>: a poll of the marker, then a
  reading of the clock, then the sleep. It may run forever, so it is a partial function:
  \<open>None\<close> is a loop that never ends. Beside the returned string the model reports the
  calls made up to the return.
\<close>

partial_function (option) wait_loop ::
  "redis \<Rightarrow> int \<Rightarrow> int \<Rightarrow> int \<Rightarrow> call list \<Rightarrow> (string \<times> call list) option" where
  "wait_loop r bgsave_begin t0 timeout h =
     (if lastsave r h \<noteq> t0 then Some (''ok'', h @ [LASTSAVE])
      else if now r (h @ [LASTSAVE]) - bgsave_begin > timeout
      then Some (''timeout'', h @ [LASTSAVE, NOW])
      else wait_loop r bgsave_begin t0 timeout (h @ [LASTSAVE, NOW, SLEEP]))"

declare wait_loop.simps [code]

text \<open>
  Lines 43 to 55: the clock is read first, then the marker \<open>t0\<close>, then the save is
  triggered.
\<close>

definition bgsave_and_wait_calls :: "redis \<Rightarrow> int \<Rightarrow> (string \<times> call list) option" where
  "bgsave_and_wait_calls r timeout =
     (let bgsave_begin = now r [];
          t0 = lastsave r [NOW]
      in if bgsave r [NOW, LASTSAVE]
         then wait_loop r bgsave_begin t0 timeout [NOW, LASTSAVE, BGSAVE]
         else Some (''failed'', [NOW, LASTSAVE, BGSAVE]))"

definition bgsave_and_wait :: "redis \<Rightarrow> int \<Rightarrow> string option" where
  "bgsave_and_wait r timeout = map_option fst (bgsave_and_wait_calls r timeout)"

text \<open>
  The calls made when the loop has gone through \<open>k\<close> rounds without leaving.
\<close>

fun rounds :: "nat \<Rightarrow> call list" where
  "rounds 0 = [NOW, LASTSAVE, BGSAVE]"
| "rounds (Suc k) = rounds k @ [LASTSAVE, NOW, SLEEP]"

definition rdb_path :: "redis \<Rightarrow> string" where
  "rdb_path r = config_dir r @ ''/'' @ config_dbfilename r"

definition aof_path :: "redis \<Rightarrow> string \<Rightarrow> string" where
  "aof_path r aof_filename = path_join (config_dir r) aof_filename"

section \<open>The run\<close>

text \<open>
  The parsed command line. \<open>backup_dir\<close> is the absolute path that line 217 computes; the
  log file and the log level are not part of the model.
\<close>

record args =
  backup_dir :: string
  backup_filename :: string
  max_backups :: int
  redis_host :: string
  redis_port :: int
  bgsave_timeout :: int
  with_aof :: bool
  aof_filename :: string

definition timedelta_seconds :: "int \<Rightarrow> int" where
  "timedelta_seconds n = n * 1000000"

definition os_remove_val :: "fs \<Rightarrow> pyval \<Rightarrow> error + fs" where
  "os_remove_val fs v = (case v of PyStr p \<Rightarrow> os_remove fs p | _ \<Rightarrow> Inl TypeError)"

text \<open>Lines 241 to 262 of \<^verbatim>\<open>main\<close>: what is logged before the save.\<close>

definition main_log_start :: "redis \<Rightarrow> args \<Rightarrow> world \<Rightarrow> world" where
  "main_log_start r a w =
     (let w = logger INFO ''backup begin @ %s'' [] w;
          w = logger INFO ''backup dir: %s'' [PyStr (backup_dir a)] w;
          w = logger INFO ''backup file: %s'' [PyStr (backup_filename a)] w;
          w = logger INFO ''max backups: %s'' [PyInt (max_backups a)] w;
          w = logger INFO ''redis host: %s'' [PyStr (redis_host a)] w;
          w = logger INFO ''redis port: %s'' [PyInt (redis_port a)] w;
          w = logger INFO ''bgsave timeout: %s seconds'' [PyInt (bgsave_timeout a)] w;
          w = logger INFO ''connected to redis server %s:%d''
                [PyStr (redis_host a), PyInt (redis_port a)] w;
          w = logger INFO ''redis rdb file path: %s'' [PyStr (rdb_path r)] w;
          w = (if with_aof a
               then logger INFO ''redis aof file path: %s'' [PyStr (aof_path r (aof_filename a))] w
               else w)
      in logger INFO ''redis bgsave...'' [] w)"

text \<open>Lines 271 to 284 of \<^verbatim>\<open>main\<close>: the two copies and the removal of the first one.\<close>

definition main_copy :: "env \<Rightarrow> redis \<Rightarrow> args \<Rightarrow> world \<Rightarrow> (error + unit) \<times> world" where
  "main_copy e r a w =
     (let w1 = logger INFO ''starting copy rdb...'' [] w
      in case copy_rdb e w1 (rdb_path r) (backup_dir a) (backup_filename a) (redis_port a) of
           (Inl x, w2) \<Rightarrow> (Inl x, w2)
         | (Inr rdb_bak_path, w2) \<Rightarrow>
             if \<not> truthy rdb_bak_path
             then (Inl (SystemExit 1), logger FATAL ''%s %s'' [PyStr ''backup failed!''] w2)
             else if with_aof a then
               (let w3 = logger INFO ''starting copy aof...'' [] w2
                in case copy_aof e w3 (aof_path r (aof_filename a)) (backup_dir a)
                          (backup_filename a) (redis_port a) of
                     (Inl x, w4) \<Rightarrow> (Inl x, w4)
                   | (Inr aof_bak_path, w4) \<Rightarrow>
                       if \<not> truthy aof_bak_path then
                         (case os_remove_val (disk w4) rdb_bak_path of
                            Inl x \<Rightarrow> (Inl x, w4)
                          | Inr fs' \<Rightarrow>
                              (Inl (SystemExit 1),
                               logger FATAL ''%s %s'' [PyStr ''backup failed!'']
                                 (logger FATAL ''remove %s'' [rdb_bak_path] (w4\<lparr>disk := fs'\<rparr>))))
                       else (Inr (), w4))
             else (Inr (), w2))"

text \<open>Lines 286 to 290 of \<^verbatim>\<open>main\<close>: retention, then the last line of the log.\<close>

definition main_clean :: "args \<Rightarrow> world \<Rightarrow> (error + unit) \<times> world" where
  "main_clean a w =
     (case clean_rdb_backup w (backup_dir a) (max_backups a) (redis_port a) of
        (Inl x, w1) \<Rightarrow> (Inl x, w1)
      | (Inr u, w1) \<Rightarrow>
          if with_aof a then
            (case clean_aof_backup w1 (backup_dir a) (max_backups a) (redis_port a) of
               (Inl x, w2) \<Rightarrow> (Inl x, w2)
             | (Inr u', w2) \<Rightarrow>
                 (Inr (), logger INFO ''backup successful! time cost: %s seconds'' [] w2))
          else (Inr (), logger INFO ''backup successful! time cost: %s seconds'' [] w1))"

text \<open>
  \<^verbatim>\<open>main\<close>, lines 183 to 290, from the parsed arguments on. The result is \<open>None\<close> when
  the wait for the save never ends.
\<close>

definition main :: "env \<Rightarrow> redis \<Rightarrow> args \<Rightarrow> world \<Rightarrow> ((error + unit) \<times> world) option" where
  "main e r a w =
     (let w0 = main_log_start r a w
      in case bgsave_and_wait r (timedelta_seconds (bgsave_timeout a)) of
           None \<Rightarrow> None
         | Some ret \<Rightarrow>
             let w1 = logger INFO ret [] w0
             in if ret \<noteq> ''ok''
                then Some (Inl (SystemExit 1), logger FATAL ''%s %s'' [PyStr ''backup failed!''] w1)
                else (case main_copy e r a w1 of
                        (Inl x, w2) \<Rightarrow> Some (Inl x, w2)
                      | (Inr u, w2) \<Rightarrow> Some (main_clean a w2)))"

text \<open>
  The exit status of the process: 0 when \<^verbatim>\<open>main\<close> returns, the argument of
  \<^verbatim>\<open>sys.exit\<close>, and 1 for any other exception that reaches the interpreter.
\<close>

definition exit_status :: "error + unit \<Rightarrow> int" where
  "exit_status res = (case res of Inr u \<Rightarrow> 0 | Inl (SystemExit n) \<Rightarrow> n | Inl x \<Rightarrow> 1)"

section \<open>A small machine for running the model\<close>

text \<open>
  A file system with the backup directory \<^verbatim>\<open>/b\<close>, two backups of port 1 in it and a
  file that is none, and the store's directory \<^verbatim>\<open>/d\<close>. In \<open>ex_env\<close> file names are
  formatted from templates without directives, which \<^verbatim>\<open>strftime\<close> returns as they are;
  the digest of a file is taken to be its bytes, and the store writes nothing during a copy.
\<close>

definition ex_disk :: fs where
  "ex_disk =
     [(''/'', Dir 0), (''/b'', Dir 0),
      (''/b/a(port_1).rdb'', File ''x'' 3), (''/b/c(port_1).rdb'', File ''y'' 1),
      (''/b/z.rdb'', File [] 0),
      (''/d'', Dir 0), (''/d/dump.rdb'', File ''data'' 7)]"

definition ex_world :: world where
  "ex_world = \<lparr>disk = ex_disk, log = []\<rparr>"

definition ex_env :: env where
  "ex_env = \<lparr>strftime = (\<lambda>fmt t. fmt), md5 = (\<lambda>bytes. bytes),
              rewritten = (\<lambda>p. None), mkdir_time = 0\<rparr>"

text \<open>
  The same environment with a live store: while the script copies \<^verbatim>\<open>/d/dump.rdb\<close>
  the store rewrites it.
\<close>

definition ex_live_env :: env where
  "ex_live_env =
     ex_env\<lparr>rewritten := (\<lambda>p. if p = ''/d/dump.rdb'' then Some (''other'', 9) else None)\<rparr>"

text \<open>
  A store that answers \<^verbatim>\<open>BGSAVE\<close> with true and whose last-save marker changes once the
  script has slept twice, and a clock that advances one second with every sleep. The
  marker of \<open>ex_quick_redis\<close> changes with the trigger itself: it is 0 before \<^verbatim>\<open>BGSAVE\<close>
  and 1 after it.
\<close>

definition ex_redis :: redis where
  "ex_redis =
     \<lparr>config_dir = ''/d'', config_dbfilename = ''dump.rdb'',
      lastsave = (\<lambda>h. if length (filter (\<lambda>c. c = SLEEP) h) < 2 then 0 else 1),
      bgsave = (\<lambda>h. True),
      now = (\<lambda>h. int (length (filter (\<lambda>c. c = SLEEP) h)) * 1000000)\<rparr>"

definition ex_quick_redis :: redis where
  "ex_quick_redis = ex_redis\<lparr>lastsave := (\<lambda>h. if BGSAVE \<in> set h then 1 else 0)\<rparr>"

text \<open>
  The arguments of the runs: port 1, a limit of two backups, a template that ends with
  the port. \<open>ex_aof_world\<close> has an aof file in the store's directory and an aof backup of
  the same name as the one a run would make; \<open>ex_dir_world\<close> has a directory in the
  backup directory whose name ends with the suffix; \<open>ex_plain_world\<close> and
  \<open>ex_plain_args\<close> are a backup directory and arguments with names that do not hold the
  port, and a limit of one.
\<close>

definition ex_args :: args where
  "ex_args =
     \<lparr>backup_dir = ''/b'', backup_filename = ''n(port_1)'', max_backups = 2,
      redis_host = ''localhost'', redis_port = 1, bgsave_timeout = 60,
      with_aof = False, aof_filename = ''appendonly.aof''\<rparr>"

definition ex_aof_world :: world where
  "ex_aof_world =
     \<lparr>disk = ex_disk @ [(''/d/appendonly.aof'', File ''log'' 8), (''/b/n(port_1).aof'', File ''old'' 2)],
      log = []\<rparr>"

definition ex_dir_world :: world where
  "ex_dir_world = \<lparr>disk = ex_disk @ [(''/b/old(port_1).rdb'', Dir 0)], log = []\<rparr>"

definition ex_plain_world :: world where
  "ex_plain_world =
     \<lparr>disk = [(''/'', Dir 0), (''/b'', Dir 0), (''/b/old.rdb'', File ''x'' 3),
              (''/b/older.rdb'', File ''y'' 1), (''/d'', Dir 0), (''/d/dump.rdb'', File ''data'' 7)],
      log = []\<rparr>"

definition ex_plain_args :: args where
  "ex_plain_args = ex_args\<lparr>backup_filename := ''dump'', max_backups := 1\<rparr>"

section \<open>Facts about the file system\<close>

lemmas fs_defs =
  path_exists_def path_isdir_def path_isfile_def path_getmtime_def path_getsize_def
  path_join_def path_dirname_def path_basename_def rstrip_slash_def is_entry_def
  os_listdir_def os_remove_def os_makedirs_def dir_chain_def shutil_copy2_def
  endswith_def file_suffix_def str_int_def str_nat.simps backup_paths_def logger_def
  mtime_at_def

lemmas ex_defs = ex_disk_def ex_world_def ex_env_def

lemma entry_path: "is_entry d p \<Longrightarrow> d @ ''/'' @ drop (length d + 1) p = p"
  unfolding is_entry_def by (metis append.assoc append_take_drop_id)

lemma listed_files:
  "filter (\<lambda>f. endswith f sfx) (map (drop (length d + 1)) (filter (is_entry d) ps))
     = map (drop (length d + 1)) (filter (is_backup d sfx) ps)"
  by (induction ps) (auto simp: is_backup_def)

lemma listed_paths:
  "map (\<lambda>f. d @ ''/'' @ f) (map (drop (length d + 1)) (filter (is_backup d sfx) ps))
     = filter (is_backup d sfx) ps"
  by (induction ps) (auto simp: is_backup_def entry_path [simplified])

lemma getmtime_at: "map_of fs p \<noteq> None \<Longrightarrow> path_getmtime fs p = Inr (mtime_at fs p)"
  by (auto simp: path_getmtime_def mtime_at_def)

lemma files_time_loop_all:
  "\<forall>f\<in>set fl. map_of fs (d @ ''/'' @ f) \<noteq> None \<Longrightarrow>
   files_time_loop fs d fl acc = Inr (acc @ map (\<lambda>f. (d @ ''/'' @ f, mtime_at fs (d @ ''/'' @ f))) fl)"
  by (induction fl arbitrary: acc) (simp_all add: getmtime_at Let_def)

lemma map_of_filter_keys:
  "map_of (filter (\<lambda>(k, v). Q k) xs) p = (if Q p then map_of xs p else None)"
  by (induction xs) auto

lemma keys_filter: "map fst (filter (\<lambda>(p, n). Q p) xs) = filter Q (map fst xs)"
  by (induction xs) auto

lemma remove_loop_all:
  "distinct (map fst dels) \<Longrightarrow> \<forall>x\<in>set dels. path_isfile (disk w) (fst x) \<Longrightarrow>
   remove_loop w dels =
     (Inr (), w\<lparr>disk := filter (\<lambda>(p, n). p \<notin> fst ` set dels) (disk w),
               log := log w @ map (\<lambda>x. (INFO, ''delete %s'', [PyStr (fst x)])) dels\<rparr>)"
proof (induction dels arbitrary: w)
  case Nil
  then show ?case by simp
next
  case (Cons x dels)
  let ?w1 = "logger INFO ''delete %s'' [PyStr (fst x)] w"
  let ?w2 = "?w1\<lparr>disk := AList.delete (fst x) (disk ?w1)\<rparr>"
  have rm: "os_remove (disk ?w1) (fst x) = Inr (AList.delete (fst x) (disk ?w1))"
    using Cons.prems(2) by (simp add: os_remove_def logger_def)
  have files2: "\<forall>y\<in>set dels. path_isfile (disk ?w2) (fst y)"
  proof
    fix y assume y: "y \<in> set dels"
    then have "fst y \<in> fst ` set dels" by (rule imageI)
    moreover have "fst x \<notin> fst ` set dels" using Cons.prems(1) by simp
    ultimately have "fst y \<noteq> fst x" by metis
    then show "path_isfile (disk ?w2) (fst y)"
      using Cons.prems(2) y by (simp add: path_isfile_def logger_def AList.delete_conv)
  qed
  have dist2: "distinct (map fst dels)" using Cons.prems(1) by simp
  have ih: "remove_loop ?w2 dels =
     (Inr (), ?w2\<lparr>disk := filter (\<lambda>(p, n). p \<notin> fst ` set dels) (disk ?w2),
               log := log ?w2 @ map (\<lambda>x. (INFO, ''delete %s'', [PyStr (fst x)])) dels\<rparr>)"
    by (rule Cons.IH [OF dist2 files2])
  have flt: "filter (\<lambda>(p, n). p \<notin> fst ` set dels) (AList.delete (fst x) (disk w))
           = filter (\<lambda>(p, n). p \<notin> fst ` set (x # dels)) (disk w)"
    by (auto simp: AList.delete_eq intro!: filter_cong)
  show ?case
    using rm ih flt by (simp add: logger_def)
qed

lemma length_filter_minus:
  "distinct xs \<Longrightarrow> D \<subseteq> set xs \<Longrightarrow> length (filter (\<lambda>x. x \<notin> D) xs) = length xs - card D"
proof -
  assume d: "distinct xs" and s: "D \<subseteq> set xs"
  have fin: "finite D" using s by (rule finite_subset) simp
  have "length (filter (\<lambda>x. x \<notin> D) xs) = card ({x. x \<notin> D} \<inter> set xs)"
    using d by (rule distinct_length_filter)
  also have "{x. x \<notin> D} \<inter> set xs = set xs - D" by auto
  also have "card (set xs - D) = card (set xs) - card D"
    using fin s by (rule card_Diff_subset)
  also have "card (set xs) = length xs" using d by (rule distinct_card)
  finally show ?thesis .
qed

lemma sorted_take_drop:
  "sorted (map f xs) \<Longrightarrow> a \<in> set (take k xs) \<Longrightarrow> b \<in> set (drop k xs) \<Longrightarrow> f a \<le> f b"
proof -
  assume s: "sorted (map f xs)" and a: "a \<in> set (take k xs)" and b: "b \<in> set (drop k xs)"
  have "sorted (map f (take k xs) @ map f (drop k xs))"
    using s by (simp flip: map_append)
  then show ?thesis using a b by (auto simp: sorted_append)
qed


lemma listdir_dir:
  "path_isdir fs d \<Longrightarrow>
   os_listdir fs d = Inr (map (drop (length d + 1)) (filter (is_entry d) (map fst fs)))"
  by (simp add: os_listdir_def)

lemma clean_backup_dir_keep:
  assumes "path_isdir (disk w) d"
    and "int (length (filter (is_backup d (file_suffix port ft)) (map fst (disk w)))) \<le> m"
  shows "clean_backup_dir w d m port ft = (Inr PyNone, w)"
  using assms
  by (simp add: clean_backup_dir_def os_listdir_def listed_files [simplified] del: filter_map)

lemma sorted_pairs_distinct:
  assumes "distinct mp"
  shows "distinct (map fst (take k (sort_key snd (map (\<lambda>p. (p, g p)) mp))))"
proof -
  let ?ft = "map (\<lambda>p. (p, g p)) mp"
  have "distinct (map fst ?ft)" using assms by (simp add: comp_def)
  have "distinct ?ft" using assms by (simp add: distinct_map inj_on_def)
  moreover have "inj_on fst (set ?ft)" by (auto simp: inj_on_def)
  ultimately have "distinct (map fst (sort_key snd ?ft))" by (simp add: distinct_map)
  then show ?thesis by (simp add: take_map [symmetric] del: take_map)
qed

lemma clean_backup_dir_exceeds:
  assumes wf: "distinct (map fst (disk w))"
    and dir: "path_isdir (disk w) d"
    and mp: "mp = filter (is_backup d (file_suffix port ft)) (map fst (disk w))"
    and reg: "\<forall>p\<in>set mp. path_isfile (disk w) p"
    and nonneg: "0 \<le> m"
    and exc: "m < int (length mp)"
    and dels: "dels = take (nat (int (length mp) - m))
                        (sort_key snd (map (\<lambda>p. (p, mtime_at (disk w) p)) mp))"
  shows "clean_backup_dir w d m port ft =
           (Inr PyNone,
            w\<lparr>disk := filter (\<lambda>(p, n). p \<notin> fst ` set dels) (disk w),
              log := log w @
                (INFO, ''number of backups(%d) exceeds limit(%d), deleting old backups.'',
                   [PyInt (int (length mp)), PyInt m]) #
                map (\<lambda>x. (INFO, ''delete %s'', [PyStr (fst x)])) dels\<rparr>)"
proof -
  let ?sfx = "file_suffix port ft"
  let ?fs = "disk w"
  let ?files = "map (drop (length d + 1)) mp"
  let ?w1 = "logger INFO ''number of backups(%d) exceeds limit(%d), deleting old backups.''
               [PyInt (int (length mp)), PyInt m] w"
  let ?D = "fst ` set dels"
  let ?fs2 = "filter (\<lambda>(p, n). p \<notin> ?D) ?fs"
  have paths: "map (\<lambda>f. d @ ''/'' @ f) ?files = mp"
    unfolding mp by (rule listed_paths)
  have files: "filter (\<lambda>f. endswith f ?sfx)
                 (map (drop (length d + 1)) (filter (is_entry d) (map fst ?fs))) = ?files"
    unfolding mp by (rule listed_files)
  have keys: "\<forall>p\<in>set mp. map_of ?fs p \<noteq> None"
    using reg by (auto simp: path_isfile_def split: option.splits)
  have "\<forall>f\<in>set ?files. map_of ?fs (d @ ''/'' @ f) \<noteq> None"
  proof
    fix f assume "f \<in> set ?files"
    then have "d @ ''/'' @ f \<in> (\<lambda>f. d @ ''/'' @ f) ` set ?files" by (rule imageI)
    then have "d @ ''/'' @ f \<in> set (map (\<lambda>f. d @ ''/'' @ f) ?files)" by (simp only: set_map)
    then have "d @ ''/'' @ f \<in> set mp" by (simp only: paths)
    then show "map_of ?fs (d @ ''/'' @ f) \<noteq> None" using keys by blast
  qed
  then have "files_time_loop ?fs d ?files [] =
               Inr ([] @ map (\<lambda>f. (d @ ''/'' @ f, mtime_at ?fs (d @ ''/'' @ f))) ?files)"
    by (rule files_time_loop_all)
  moreover have pt: "\<And>p. p \<in> set mp \<Longrightarrow> d @ ''/'' @ drop (length d + 1) p = p"
    unfolding mp by (simp add: is_backup_def entry_path [simplified])
  ultimately have ft: "files_time_loop ?fs d ?files [] = Inr (map (\<lambda>p. (p, mtime_at ?fs p)) mp)"
    by (simp add: pt [simplified])
  have dmp: "distinct mp" unfolding mp using wf by (rule distinct_filter)
  have ddels: "distinct (map fst dels)" unfolding dels using dmp by (rule sorted_pairs_distinct)
  have sub: "?D \<subseteq> set mp"
  proof
    fix p assume "p \<in> ?D"
    then obtain x where x: "x \<in> set dels" and p: "p = fst x" by auto
    from x have "x \<in> set (sort_key snd (map (\<lambda>p. (p, mtime_at ?fs p)) mp))"
      unfolding dels by (rule in_set_takeD)
    then show "p \<in> set mp" using p by auto
  qed
  have regd: "\<forall>x\<in>set dels. path_isfile (disk ?w1) (fst x)"
    using sub reg by (auto simp: logger_def)
  have rl: "remove_loop ?w1 dels =
     (Inr (), ?w1\<lparr>disk := filter (\<lambda>(p, n). p \<notin> fst ` set dels) (disk ?w1),
               log := log ?w1 @ map (\<lambda>x. (INFO, ''delete %s'', [PyStr (fst x)])) dels\<rparr>)"
    using ddels regd by (rule remove_loop_all)
  have dnot: "d \<notin> ?D"
  proof
    assume "d \<in> ?D"
    then have "path_isfile ?fs d" using sub reg by auto
    then show False using dir by (auto simp: path_isfile_def path_isdir_def split: option.splits node.splits)
  qed
  have dir2: "path_isdir ?fs2 d"
    using dir dnot by (simp add: path_isdir_def map_of_filter_keys)
  have keys2: "map fst ?fs2 = filter (\<lambda>p. p \<notin> ?D) (map fst ?fs)"
    by (rule keys_filter)
  have "filter (is_backup d ?sfx) (map fst ?fs2) = filter (\<lambda>p. p \<notin> ?D) mp"
    unfolding keys2 mp by (simp add: conj_commute)
  then have "length (filter (is_backup d ?sfx) (map fst ?fs2)) = length mp - card ?D"
    using dmp sub by (simp add: length_filter_minus)
  moreover have "card ?D = length dels"
    using ddels by (metis distinct_card length_map set_map)
  moreover have "length dels = nat (int (length mp) - m)"
    unfolding dels using nonneg exc by simp
  ultimately have cnt: "int (length (filter (is_backup d ?sfx) (map fst ?fs2))) = m"
    using nonneg exc by simp
  have ls2: "os_listdir ?fs2 d = Inr (map (drop (length d + 1)) (filter (is_entry d) (map fst ?fs2)))"
    using dir2 by (rule listdir_dir)
  have cnt2: "int (length (filter (\<lambda>f. endswith f ?sfx)
                 (map (drop (length d + 1)) (filter (is_entry d) (map fst ?fs2))))) = m"
    using cnt by (simp only: listed_files length_map)
  have ls: "os_listdir ?fs d = Inr (map (drop (length d + 1)) (filter (is_entry d) (map fst ?fs)))"
    using dir by (rule listdir_dir)
  have n: "length ?files = length mp" by simp
  show ?thesis
    unfolding clean_backup_dir_def ls
    apply (simp only: sum.case Let_def files n)
    using exc ft rl ls2 cnt2 dels
    apply (simp add: logger_def del: filter_map)
    done
qed


lemma backup_paths_dir:
  "path_isdir fs d \<Longrightarrow>
   backup_paths fs d port ft = filter (is_backup d (file_suffix port ft)) (map fst fs)"
  by (simp only: backup_paths_def listdir_dir sum.case listed_files listed_paths)

lemma backup_paths_filter:
  assumes "path_isdir fs d" and "d \<notin> D"
  shows "backup_paths (filter (\<lambda>(p, n). p \<notin> D) fs) d port ft
           = filter (\<lambda>p. p \<notin> D) (backup_paths fs d port ft)"
proof -
  have "path_isdir (filter (\<lambda>(p, n). p \<notin> D) fs) d"
    using assms by (simp add: path_isdir_def map_of_filter_keys)
  then have "backup_paths (filter (\<lambda>(p, n). p \<notin> D) fs) d port ft
      = filter (is_backup d (file_suffix port ft)) (map fst (filter (\<lambda>(p, n). p \<notin> D) fs))"
    by (rule backup_paths_dir)
  also have "\<dots> = filter (\<lambda>p. p \<notin> D) (filter (is_backup d (file_suffix port ft)) (map fst fs))"
    by (simp add: keys_filter conj_commute)
  finally show ?thesis using assms(1) by (simp only: backup_paths_dir)
qed

section \<open>Retention: what is deleted and what remains\<close>

text \<open>
  What \<^verbatim>\<open>clean_backup_dir\<close> does for a limit that is not negative. Let \<open>before\<close> and
  \<open>after\<close> be the backups of the port and file type in the backup directory before and
  after the call, and \<open>deleted\<close> the ones that are gone. When there are at most \<open>maxb\<close>
  backups the function returns and changes nothing. When there are more, \<open>maxb\<close> is not
  negative, every backup is a regular file and no path is on the disk twice, it returns
  with exactly \<open>length before - maxb\<close> backups deleted and exactly \<open>maxb\<close> left, no
  deleted backup is newer than a remaining one, and nothing else on the disk has changed.
\<close>

lemma clean_backup_dir_keeps_newest:
  assumes dir: "path_isdir (disk w) bdir"
    and res: "clean_backup_dir w bdir maxb port file_type = (res, w')"
    and before: "before = backup_paths (disk w) bdir port file_type"
    and after: "after = backup_paths (disk w') bdir port file_type"
    and deleted: "deleted = filter (\<lambda>p. p \<notin> set after) before"
  shows "(int (length before) \<le> maxb \<longrightarrow> res = Inr PyNone \<and> w' = w) \<and>
         (maxb < int (length before) \<and> 0 \<le> maxb \<and>
          distinct (map fst (disk w)) \<and> (\<forall>p\<in>set before. path_isfile (disk w) p) \<longrightarrow>
            res = Inr PyNone \<and>
            int (length deleted) = int (length before) - maxb \<and>
            int (length after) = maxb \<and>
            after = filter (\<lambda>p. p \<notin> set deleted) before \<and>
            (\<forall>x\<in>set deleted. \<forall>y\<in>set after. mtime_at (disk w) x \<le> mtime_at (disk w) y) \<and>
            disk w' = filter (\<lambda>(p, n). p \<notin> set deleted) (disk w))"
proof (intro conjI impI)
  let ?sfx = "file_suffix port file_type"
  have mp: "before = filter (is_backup bdir ?sfx) (map fst (disk w))"
    unfolding before using dir by (rule backup_paths_dir)
  {
    assume "int (length before) \<le> maxb"
    then have "clean_backup_dir w bdir maxb port file_type = (Inr PyNone, w)"
      unfolding mp using dir by (intro clean_backup_dir_keep)
    then show "res = Inr PyNone" and "w' = w" using res by simp_all
  }
  assume h: "maxb < int (length before) \<and> 0 \<le> maxb \<and>
          distinct (map fst (disk w)) \<and> (\<forall>p\<in>set before. path_isfile (disk w) p)"
  define ft where "ft = map (\<lambda>p. (p, mtime_at (disk w) p)) before"
  define k where "k = nat (int (length before) - maxb)"
  define dels where "dels = take k (sort_key snd ft)"
  define D where "D = fst ` set dels"
  from h have exc: "maxb < int (length before)" and nonneg: "0 \<le> maxb"
    and wf: "distinct (map fst (disk w))" and reg: "\<forall>p\<in>set before. path_isfile (disk w) p"
    by simp_all
  have "clean_backup_dir w bdir maxb port file_type =
           (Inr PyNone,
            w\<lparr>disk := filter (\<lambda>(p, n). p \<notin> fst ` set dels) (disk w),
              log := log w @
                (INFO, ''number of backups(%d) exceeds limit(%d), deleting old backups.'',
                   [PyInt (int (length before)), PyInt maxb]) #
                map (\<lambda>x. (INFO, ''delete %s'', [PyStr (fst x)])) dels\<rparr>)"
    using wf dir mp reg nonneg exc
    by (rule clean_backup_dir_exceeds) (simp add: dels_def k_def ft_def)
  with res have r: "res = Inr PyNone"
    and d': "disk w' = filter (\<lambda>(p, n). p \<notin> D) (disk w)"
    by (auto simp: D_def)
  show "res = Inr PyNone" by (rule r)
  have dmp: "distinct before" unfolding mp using wf by (rule distinct_filter)
  have ddels: "distinct (map fst dels)"
    unfolding dels_def ft_def using dmp by (rule sorted_pairs_distinct)
  have sub: "D \<subseteq> set before"
  proof
    fix p assume "p \<in> D"
    then obtain x where x: "x \<in> set dels" and p: "p = fst x" by (auto simp: D_def)
    from x have "x \<in> set (sort_key snd ft)" unfolding dels_def by (rule in_set_takeD)
    then show "p \<in> set before" using p by (auto simp: ft_def)
  qed
  have dnot: "bdir \<notin> D"
  proof
    assume "bdir \<in> D"
    then have "path_isfile (disk w) bdir" using sub reg by auto
    then show False
      using dir by (auto simp: path_isfile_def path_isdir_def split: option.splits node.splits)
  qed
  have aft: "after = filter (\<lambda>p. p \<notin> D) before"
    unfolding after d' before using dir dnot by (rule backup_paths_filter)
  have del: "deleted = filter (\<lambda>p. p \<in> D) before"
    unfolding deleted aft by (rule filter_cong) auto
  have sdel: "set deleted = D" using sub by (auto simp: del)
  have cardD: "card D = k"
  proof -
    have "card D = length dels"
      unfolding D_def using ddels by (metis distinct_card length_map set_map)
    also have "\<dots> = k" unfolding dels_def ft_def k_def using nonneg exc by simp
    finally show ?thesis .
  qed
  have "distinct deleted" unfolding del using dmp by (rule distinct_filter)
  then have "length deleted = card D" using sdel by (metis distinct_card)
  then show "int (length deleted) = int (length before) - maxb"
    using cardD nonneg exc by (simp add: k_def)
  have "length after = length before - card D"
    unfolding aft using dmp sub by (rule length_filter_minus)
  then show "int (length after) = maxb"
    using cardD nonneg exc by (simp add: k_def)
  show "after = filter (\<lambda>p. p \<notin> set deleted) before"
    unfolding sdel by (rule aft)
  show "disk w' = filter (\<lambda>(p, n). p \<notin> set deleted) (disk w)"
    unfolding sdel by (rule d')
  show "\<forall>x\<in>set deleted. \<forall>y\<in>set after. mtime_at (disk w) x \<le> mtime_at (disk w) y"
  proof (intro ballI)
    fix x y assume x: "x \<in> set deleted" and y: "y \<in> set after"
    from x sdel obtain a where a: "a \<in> set dels" and xa: "x = fst a" by (auto simp: D_def)
    from a have a_ft: "a \<in> set ft"
      unfolding dels_def using in_set_takeD [of a k "sort_key snd ft"] by simp
    then have sa: "snd a = mtime_at (disk w) x" using xa by (auto simp: ft_def)
    from y have yb: "y \<in> set before" and yD: "y \<notin> D" by (simp_all add: aft)
    let ?b = "(y, mtime_at (disk w) y)"
    have "?b \<in> set (sort_key snd ft)" using yb by (simp add: ft_def)
    then have "?b \<in> set (take k (sort_key snd ft)) \<union> set (drop k (sort_key snd ft))"
      by (simp only: set_append [symmetric] append_take_drop_id)
    moreover have "?b \<notin> set dels" using yD by (force simp: D_def)
    ultimately have b: "?b \<in> set (drop k (sort_key snd ft))" by (simp add: dels_def)
    have "sorted (map snd (sort_key snd ft))" by (rule sorted_sort_key)
    then have "snd a \<le> snd ?b"
      using a b unfolding dels_def by (rule sorted_take_drop)
    then show "mtime_at (disk w) x \<le> mtime_at (disk w) y" using sa by simp
  qed
qed

text \<open>
  Of the two backups of port 1 in \<^verbatim>\<open>/b\<close>, a limit of one keeps the newer one.
\<close>

lemma ex_clean_keeps_newest:
  "path_isdir (disk ex_world) ''/b'' \<and>
   backup_paths (disk ex_world) ''/b'' 1 ''rdb'' = [''/b/a(port_1).rdb'', ''/b/c(port_1).rdb''] \<and>
   fst (clean_backup_dir ex_world ''/b'' 1 1 ''rdb'') = Inr PyNone \<and>
   int (length (backup_paths (disk (snd (clean_backup_dir ex_world ''/b'' 1 1 ''rdb'')))
                  ''/b'' 1 ''rdb'')) = 1"
proof -
  let ?r = "clean_backup_dir ex_world ''/b'' 1 1 ''rdb''"
  let ?before = "backup_paths (disk ex_world) ''/b'' 1 ''rdb''"
  have dir: "path_isdir (disk ex_world) ''/b''"
    by (simp add: ex_defs fs_defs)
  have before: "?before = [''/b/a(port_1).rdb'', ''/b/c(port_1).rdb'']"
    by (simp add: ex_defs fs_defs)
  have wf: "distinct (map fst (disk ex_world))"
    by (simp add: ex_defs)
  have reg: "\<forall>p\<in>set ?before. path_isfile (disk ex_world) p"
    unfolding before by (simp add: ex_defs fs_defs)
  have more: "(1::int) < int (length ?before)"
    unfolding before by simp
  have "fst ?r = Inr PyNone \<and>
        int (length (backup_paths (disk (snd ?r)) ''/b'' 1 ''rdb'')) = 1"
    using clean_backup_dir_keeps_newest
            [where w = ex_world and bdir = "''/b''" and maxb = 1 and port = 1
               and file_type = "''rdb''", OF dir surjective_pairing refl refl refl]
      wf reg more
    by simp
  then show ?thesis using dir before by simp
qed

text \<open>
  Claim C4 fails on the code. The limit is the integer of \<^verbatim>\<open>-max_backups\<close>, which nothing
  checks, and the function ends with the assertion that exactly \<^verbatim>\<open>max_backups\<close> files
  remain (line 164). With two backups of port 1 in \<^verbatim>\<open>/b\<close> and a limit of \<open>-1\<close> the count
  exceeds the limit; the slice of line 159 takes every file, so the two backups are
  deleted, not the three of \<^verbatim>\<open>count - max_backups\<close>; no backup remains, and the function
  does not return: its own assertion raises.
\<close>

theorem clean_backup_dir_negative_limit:
  "length (backup_paths (disk ex_world) ''/b'' 1 ''rdb'') = 2 \<and>
   fst (clean_backup_dir ex_world ''/b'' (- 1) 1 ''rdb'') = Inl AssertionError \<and>
   backup_paths (disk (snd (clean_backup_dir ex_world ''/b'' (- 1) 1 ''rdb''))) ''/b'' 1 ''rdb'' = []"
  by (simp add: ex_defs fs_defs clean_backup_dir_def)

section \<open>Retention: the value returned\<close>

lemma ex_clean_one:
  "clean_backup_dir ex_world ''/b'' 1 1 ''rdb'' =
     (Inr PyNone,
      \<lparr>disk = [(''/'', Dir 0), (''/b'', Dir 0), (''/b/a(port_1).rdb'', File ''x'' 3),
               (''/b/z.rdb'', File [] 0), (''/d'', Dir 0), (''/d/dump.rdb'', File ''data'' 7)],
       log = [(INFO, ''number of backups(%d) exceeds limit(%d), deleting old backups.'',
                [PyInt 2, PyInt 1]),
              (INFO, ''delete %s'', [PyStr ''/b/c(port_1).rdb''])]\<rparr>)"
  by (simp add: ex_defs fs_defs clean_backup_dir_def)

text \<open>
  Claim C9, as the code has it: \<^verbatim>\<open>clean_backup_dir\<close> has no return value. Whenever it
  returns, what it returns is \<^verbatim>\<open>None\<close>, never a number of deleted files.
\<close>

theorem clean_backup_dir_returns_none:
  "clean_backup_dir w bdir maxb port ft = (Inr v, w') \<Longrightarrow> v = PyNone"
  by (auto simp: clean_backup_dir_def Let_def split: sum.splits prod.splits if_splits)

theorem clean_backup_dir_returns_none_witness:
  "fst (clean_backup_dir ex_world ''/b'' 1 1 ''rdb'') =
     Inr (projr (fst (clean_backup_dir ex_world ''/b'' 1 1 ''rdb''))) \<and>
   projr (fst (clean_backup_dir ex_world ''/b'' 1 1 ''rdb'')) = PyNone"
proof -
  let ?r = "clean_backup_dir ex_world ''/b'' 1 1 ''rdb''"
  have ok: "?r = (Inr (projr (fst ?r)), snd ?r)"
    by (simp add: ex_clean_one)
  have "projr (fst ?r) = PyNone"
    using ok by (rule clean_backup_dir_returns_none)
  then show ?thesis using ok by (metis fst_conv)
qed

text \<open>
  Claim C9 as the specification words it fails: with two backups and a limit of one the
  function deletes one file, and it returns \<^verbatim>\<open>None\<close>, not 1.
\<close>

theorem clean_backup_dir_count_not_returned:
  "length (backup_paths (disk ex_world) ''/b'' 1 ''rdb'') = 2 \<and>
   length (backup_paths (disk (snd (clean_backup_dir ex_world ''/b'' 1 1 ''rdb''))) ''/b'' 1 ''rdb'') = 1 \<and>
   fst (clean_backup_dir ex_world ''/b'' 1 1 ''rdb'') = Inr PyNone \<and>
   fst (clean_backup_dir ex_world ''/b'' 1 1 ''rdb'') \<noteq> Inr (PyInt 1)"
  by (simp add: ex_clean_one) (simp add: ex_defs fs_defs)

section \<open>Retention: the other entries of the directory\<close>

lemma remove_loop_frame:
  "p \<notin> fst ` set dels \<Longrightarrow> map_of (disk (snd (remove_loop w dels))) p = map_of (disk w) p"
proof (induction dels arbitrary: w)
  case Nil
  then show ?case by simp
next
  case (Cons x dels)
  let ?w1 = "logger INFO ''delete %s'' [PyStr (fst x)] w"
  have d1: "disk ?w1 = disk w" by (simp add: logger_def)
  from Cons.prems have px: "p \<noteq> fst x" and pd: "p \<notin> fst ` set dels" by simp_all
  show ?case
  proof (cases "os_remove (disk ?w1) (fst x)")
    case (Inl e)
    then show ?thesis using d1 by (simp add: Let_def)
  next
    case (Inr fs')
    then have fs': "fs' = AList.delete (fst x) (disk w)"
      using d1 by (simp add: os_remove_def split: if_splits)
    have "map_of (disk (snd (remove_loop (?w1\<lparr>disk := fs'\<rparr>) dels))) p
            = map_of (disk (?w1\<lparr>disk := fs'\<rparr>)) p"
      using pd by (rule Cons.IH)
    also have "\<dots> = map_of (disk w) p" using px by (simp add: fs' AList.delete_conv)
    finally show ?thesis using Inr by (simp add: Let_def)
  qed
qed

lemma files_time_loop_paths:
  "files_time_loop fs d fl acc = Inr ft \<Longrightarrow>
   fst ` set ft \<subseteq> fst ` set acc \<union> (\<lambda>f. d @ ''/'' @ f) ` set fl"
proof (induction fl arbitrary: acc)
  case Nil
  then show ?case by simp
next
  case (Cons f fl)
  show ?case
  proof (cases "path_getmtime fs (d @ ''/'' @ f)")
    case (Inl e)
    then show ?thesis using Cons.prems by (simp add: Let_def)
  next
    case (Inr t)
    then have "files_time_loop fs d fl (acc @ [(d @ ''/'' @ f, t)]) = Inr ft"
      using Cons.prems by (simp add: Let_def)
    then have "fst ` set ft \<subseteq> fst ` set (acc @ [(d @ ''/'' @ f, t)]) \<union> (\<lambda>f. d @ ''/'' @ f) ` set fl"
      by (rule Cons.IH)
    then show ?thesis by auto
  qed
qed

lemma listed_is_backup:
  assumes "f \<in> set (filter (\<lambda>f. endswith f sfx)
                       (map (drop (length d + 1)) (filter (is_entry d) ps)))"
  shows "is_backup d sfx (d @ ''/'' @ f)"
proof -
  from assms have "f \<in> set (map (drop (length d + 1)) (filter (is_backup d sfx) ps))"
    by (simp only: listed_files)
  then obtain q where q: "is_backup d sfx q" and f: "f = drop (length d + 1) q" by auto
  from q have "d @ ''/'' @ f = q" unfolding f is_backup_def by (simp add: entry_path [simplified])
  then show ?thesis using q by simp
qed


lemma clean_backup_dir_untouched:
  assumes "\<not> is_backup bdir (file_suffix port ft) p"
  shows "map_of (disk (snd (clean_backup_dir w bdir maxb port ft))) p = map_of (disk w) p"
proof (cases "os_listdir (disk w) bdir")
  case (Inl x)
  then show ?thesis by (simp add: clean_backup_dir_def)
next
  case (Inr names)
  let ?files = "filter (\<lambda>f. endswith f (file_suffix port ft)) names"
  let ?w1 = "logger INFO ''number of backups(%d) exceeds limit(%d), deleting old backups.''
               [PyInt (int (length ?files)), PyInt maxb] w"
  have names: "names = map (drop (length bdir + 1)) (filter (is_entry bdir) (map fst (disk w)))"
    using Inr by (simp add: os_listdir_def split: if_splits)
  have d1: "disk ?w1 = disk w" by (simp add: logger_def)
  show ?thesis
  proof (cases "files_time_loop (disk ?w1) bdir ?files []")
    case (Inl x)
    then show ?thesis using Inr d1 by (simp add: clean_backup_dir_def Let_def)
  next
    case times: (Inr files_time)
    let ?dels = "take (nat (int (length ?files) - maxb)) (sort_key snd files_time)"
    have "fst ` set files_time \<subseteq> (\<lambda>f. bdir @ ''/'' @ f) ` set ?files"
      using files_time_loop_paths [OF times] by simp
    moreover have "p \<notin> (\<lambda>f. bdir @ ''/'' @ f) ` set ?files"
    proof
      assume "p \<in> (\<lambda>f. bdir @ ''/'' @ f) ` set ?files"
      then obtain f where f: "f \<in> set ?files" and p: "p = bdir @ ''/'' @ f" by auto
      from f have "is_backup bdir (file_suffix port ft) (bdir @ ''/'' @ f)"
        unfolding names by (rule listed_is_backup)
      then show False using assms p by simp
    qed
    ultimately have "p \<notin> fst ` set files_time" by auto
    moreover have "set ?dels \<subseteq> set files_time"
      using set_take_subset [of _ "sort_key snd files_time"] by simp
    ultimately have "p \<notin> fst ` set ?dels" by auto
    then have fr: "map_of (disk (snd (remove_loop ?w1 ?dels))) p = map_of (disk w) p"
      using d1 by (simp add: remove_loop_frame)
    obtain r w2 where rl: "remove_loop ?w1 ?dels = (r, w2)" by (cases "remove_loop ?w1 ?dels")
    from fr rl have w2: "map_of (disk w2) p = map_of (disk w) p" by simp
    show ?thesis
    proof (cases "int (length ?files) \<le> maxb")
      case True
      then show ?thesis using Inr by (simp add: clean_backup_dir_def Let_def)
    next
      case False
      have "snd (clean_backup_dir w bdir maxb port ft) = w2"
        using Inr times rl False
        by (simp add: clean_backup_dir_def Let_def split: sum.split)
      then show ?thesis using w2 by simp
    qed
  qed
qed


lemma isdir_update: "p \<noteq> d \<Longrightarrow> path_isdir (AList.update p n fs) d = path_isdir fs d"
  by (simp add: path_isdir_def update_conv')

lemma isfile_update: "p \<noteq> q \<Longrightarrow> path_isfile (AList.update p n fs) q = path_isfile fs q"
  by (simp add: path_isfile_def update_conv')

lemma getmtime_update: "p \<noteq> q \<Longrightarrow> path_getmtime (AList.update p n fs) q = path_getmtime fs q"
  by (simp add: path_getmtime_def update_conv')

lemma listdir_update_fail:
  "p \<noteq> d \<Longrightarrow> os_listdir fs d = Inl x \<Longrightarrow> os_listdir (AList.update p n fs) d = Inl x"
  by (simp add: os_listdir_def isdir_update split: if_splits)

lemma listdir_update_files:
  assumes "p \<noteq> d" and "\<not> is_backup d sfx p" and "os_listdir fs d = Inr names"
  shows "\<exists>names'. os_listdir (AList.update p n fs) d = Inr names' \<and>
           filter (\<lambda>f. endswith f sfx) names' = filter (\<lambda>f. endswith f sfx) names"
proof -
  have dir: "path_isdir fs d" using assms(3) by (simp add: os_listdir_def split: if_splits)
  then have names: "names = map (drop (length d + 1)) (filter (is_entry d) (map fst fs))"
    using assms(3) by (simp add: os_listdir_def)
  let ?names' = "map (drop (length d + 1)) (filter (is_entry d) (map fst (AList.update p n fs)))"
  have "os_listdir (AList.update p n fs) d = Inr ?names'"
    using dir assms(1) by (simp add: os_listdir_def isdir_update)
  moreover have "filter (is_backup d sfx) (map fst (AList.update p n fs))
                   = filter (is_backup d sfx) (map fst fs)"
    using assms(2) by (simp add: update_keys)
  then have "filter (\<lambda>f. endswith f sfx) ?names' = filter (\<lambda>f. endswith f sfx) names"
    unfolding names by (simp only: listed_files)
  ultimately show ?thesis by blast
qed

lemma files_time_loop_update:
  "\<forall>f\<in>set fl. d @ ''/'' @ f \<noteq> p \<Longrightarrow>
   files_time_loop (AList.update p n fs) d fl acc = files_time_loop fs d fl acc"
proof (induction fl arbitrary: acc)
  case Nil
  then show ?case by simp
next
  case (Cons f fl)
  then have "path_getmtime (AList.update p n fs) (d @ ''/'' @ f) = path_getmtime fs (d @ ''/'' @ f)"
    by (intro getmtime_update) auto
  moreover have "\<And>acc. files_time_loop (AList.update p n fs) d fl acc = files_time_loop fs d fl acc"
    using Cons by simp
  ultimately show ?case by (simp add: Let_def split: sum.split)
qed

lemma remove_loop_update:
  "p \<notin> fst ` set dels \<Longrightarrow>
   remove_loop (w\<lparr>disk := AList.update p n (disk w)\<rparr>) dels =
     (fst (remove_loop w dels),
      (snd (remove_loop w dels))\<lparr>disk := AList.update p n (disk (snd (remove_loop w dels)))\<rparr>)"
proof (induction dels arbitrary: w)
  case Nil
  then show ?case by simp
next
  case (Cons x dels)
  from Cons.prems have px: "p \<noteq> fst x" and pd: "p \<notin> fst ` set dels" by simp_all
  let ?w1 = "logger INFO ''delete %s'' [PyStr (fst x)] w"
  let ?u = "w\<lparr>disk := AList.update p n (disk w)\<rparr>"
  let ?u1 = "logger INFO ''delete %s'' [PyStr (fst x)] ?u"
  have u1: "?u1 = ?w1\<lparr>disk := AList.update p n (disk ?w1)\<rparr>" by (simp add: logger_def)
  have d1: "disk ?w1 = disk w" by (simp add: logger_def)
  show ?case
  proof (cases "path_isfile (disk w) (fst x)")
    case False
    then have "os_remove (disk ?w1) (fst x) = Inl OSError"
      and "os_remove (disk ?u1) (fst x) = Inl OSError"
      using px by (simp_all add: os_remove_def logger_def isfile_update)
    then show ?thesis using u1 by (simp add: Let_def)
  next
    case True
    let ?fs' = "AList.delete (fst x) (disk w)"
    have r1: "os_remove (disk ?w1) (fst x) = Inr ?fs'"
      using True by (simp add: os_remove_def logger_def)
    have r2: "os_remove (disk ?u1) (fst x) = Inr (AList.update p n ?fs')"
      using True px by (simp add: os_remove_def logger_def isfile_update delete_update)
    have eq: "?u1\<lparr>disk := AList.update p n ?fs'\<rparr>
                = (?w1\<lparr>disk := ?fs'\<rparr>)\<lparr>disk := AList.update p n (disk (?w1\<lparr>disk := ?fs'\<rparr>))\<rparr>"
      by (simp add: logger_def)
    have "remove_loop ?u (x # dels) = remove_loop (?u1\<lparr>disk := AList.update p n ?fs'\<rparr>) dels"
      using r2 by (simp add: Let_def)
    also have "\<dots> = (fst (remove_loop (?w1\<lparr>disk := ?fs'\<rparr>) dels),
        (snd (remove_loop (?w1\<lparr>disk := ?fs'\<rparr>) dels))
          \<lparr>disk := AList.update p n (disk (snd (remove_loop (?w1\<lparr>disk := ?fs'\<rparr>) dels)))\<rparr>)"
      unfolding eq using pd by (rule Cons.IH)
    also have "remove_loop (?w1\<lparr>disk := ?fs'\<rparr>) dels = remove_loop w (x # dels)"
      using r1 by (simp add: Let_def)
    finally show ?thesis .
  qed
qed


lemma clean_backup_dir_update:
  assumes pd: "p \<noteq> bdir" and nb: "\<not> is_backup bdir (file_suffix port ft) p"
  shows "clean_backup_dir (w\<lparr>disk := AList.update p n (disk w)\<rparr>) bdir maxb port ft =
           (fst (clean_backup_dir w bdir maxb port ft),
            (snd (clean_backup_dir w bdir maxb port ft))
              \<lparr>disk := AList.update p n (disk (snd (clean_backup_dir w bdir maxb port ft)))\<rparr>)"
proof (cases "os_listdir (disk w) bdir")
  case (Inl x)
  then have "os_listdir (AList.update p n (disk w)) bdir = Inl x"
    using pd by (intro listdir_update_fail)
  then show ?thesis using Inl by (simp add: clean_backup_dir_def)
next
  case (Inr names)
  let ?sfx = "file_suffix port ft"
  let ?u = "w\<lparr>disk := AList.update p n (disk w)\<rparr>"
  let ?files = "filter (\<lambda>f. endswith f ?sfx) names"
  let ?w1 = "logger INFO ''number of backups(%d) exceeds limit(%d), deleting old backups.''
               [PyInt (int (length ?files)), PyInt maxb] w"
  let ?u1 = "logger INFO ''number of backups(%d) exceeds limit(%d), deleting old backups.''
               [PyInt (int (length ?files)), PyInt maxb] ?u"
  obtain names' where ls': "os_listdir (disk ?u) bdir = Inr names'"
    and files': "filter (\<lambda>f. endswith f ?sfx) names' = ?files"
    using listdir_update_files [OF pd nb Inr, of n] by auto
  have names: "names = map (drop (length bdir + 1)) (filter (is_entry bdir) (map fst (disk w)))"
    using Inr by (simp add: os_listdir_def split: if_splits)
  have u1: "?u1 = ?w1\<lparr>disk := AList.update p n (disk ?w1)\<rparr>" by (simp add: logger_def)
  have d1: "disk ?w1 = disk w" by (simp add: logger_def)
  have du1: "disk ?u1 = AList.update p n (disk w)" by (simp add: logger_def)
  show ?thesis
  proof (cases "int (length ?files) \<le> maxb")
    case True
    then show ?thesis using Inr ls' files' by (simp add: clean_backup_dir_def Let_def)
  next
    case False
    have notp: "\<forall>f\<in>set ?files. bdir @ ''/'' @ f \<noteq> p"
    proof
      fix f assume "f \<in> set ?files"
      then have "is_backup bdir ?sfx (bdir @ ''/'' @ f)" unfolding names by (rule listed_is_backup)
      then show "bdir @ ''/'' @ f \<noteq> p" using nb by auto
    qed
    have tl: "files_time_loop (disk ?u1) bdir ?files [] = files_time_loop (disk ?w1) bdir ?files []"
      unfolding du1 d1 using notp by (rule files_time_loop_update)
    show ?thesis
    proof (cases "files_time_loop (disk ?w1) bdir ?files []")
      case (Inl x)
      then show ?thesis
        using Inr ls' files' False tl u1 by (simp add: clean_backup_dir_def Let_def)
    next
      case times: (Inr files_time)
      let ?dels = "take (nat (int (length ?files) - maxb)) (sort_key snd files_time)"
      have "fst ` set files_time \<subseteq> (\<lambda>f. bdir @ ''/'' @ f) ` set ?files"
        using files_time_loop_paths [OF times] by simp
      moreover have "p \<notin> (\<lambda>f. bdir @ ''/'' @ f) ` set ?files" using notp by blast
      ultimately have "p \<notin> fst ` set files_time" by blast
      moreover have "set ?dels \<subseteq> set files_time"
        using set_take_subset [of _ "sort_key snd files_time"] by simp
      ultimately have pdels: "p \<notin> fst ` set ?dels" by auto
      obtain r w2 where rl: "remove_loop ?w1 ?dels = (r, w2)" by (cases "remove_loop ?w1 ?dels")
      let ?u2 = "w2\<lparr>disk := AList.update p n (disk w2)\<rparr>"
      have rlu: "remove_loop ?u1 ?dels = (r, ?u2)"
        unfolding u1 using remove_loop_update [OF pdels, where w = ?w1 and n = n] rl by simp
      show ?thesis
      proof (cases r)
        case (Inl x)
        then show ?thesis
          using Inr ls' files' False tl times rl rlu
          by (simp add: clean_backup_dir_def Let_def)
      next
        case ok: (Inr u)
        show ?thesis
        proof (cases "os_listdir (disk w2) bdir")
          case (Inl x)
          then have "os_listdir (disk ?u2) bdir = Inl x"
            using pd by (simp add: listdir_update_fail)
          then show ?thesis
            using Inr ls' files' False tl times rl rlu ok Inl
            by (simp add: clean_backup_dir_def Let_def)
        next
          case ls2: (Inr names2)
          obtain names2' where ls2': "os_listdir (disk ?u2) bdir = Inr names2'"
            and files2': "filter (\<lambda>f. endswith f ?sfx) names2'
                            = filter (\<lambda>f. endswith f ?sfx) names2"
            using listdir_update_files [OF pd nb ls2, of n] by auto
          show ?thesis
            using Inr ls' files' False tl times rl rlu ok ls2 ls2' files2'
            by (simp add: clean_backup_dir_def Let_def)
        qed
      qed
    qed
  qed
qed

text \<open>
  Claim C10. Let \<open>p\<close> be an entry of the backup directory whose name does not end with
  the suffix. Whatever \<^verbatim>\<open>clean_backup_dir\<close> does, also when it raises, \<open>p\<close> keeps its
  node. And \<open>p\<close> plays no part in the counting and the ranking: putting any node \<open>n\<close> at
  \<open>p\<close> before the call (any modification time, a file or a directory) changes neither
  the result nor what happens to the other paths, the call commutes with the change.
\<close>

theorem clean_backup_dir_ignores_other_entries:
  assumes "is_entry bdir p"
    and "\<not> endswith (drop (length bdir + 1) p) (file_suffix port ft)"
  shows "map_of (disk (snd (clean_backup_dir w bdir maxb port ft))) p = map_of (disk w) p \<and>
         clean_backup_dir (w\<lparr>disk := AList.update p n (disk w)\<rparr>) bdir maxb port ft =
           (fst (clean_backup_dir w bdir maxb port ft),
            (snd (clean_backup_dir w bdir maxb port ft))
              \<lparr>disk := AList.update p n (disk (snd (clean_backup_dir w bdir maxb port ft)))\<rparr>)"
proof
  have nb: "\<not> is_backup bdir (file_suffix port ft) p"
    using assms(2) by (simp add: is_backup_def)
  have pd: "p \<noteq> bdir" using assms(1) by (auto simp: is_entry_def)
  show "map_of (disk (snd (clean_backup_dir w bdir maxb port ft))) p = map_of (disk w) p"
    using nb by (rule clean_backup_dir_untouched)
  show "clean_backup_dir (w\<lparr>disk := AList.update p n (disk w)\<rparr>) bdir maxb port ft =
           (fst (clean_backup_dir w bdir maxb port ft),
            (snd (clean_backup_dir w bdir maxb port ft))
              \<lparr>disk := AList.update p n (disk (snd (clean_backup_dir w bdir maxb port ft)))\<rparr>)"
    using pd nb by (rule clean_backup_dir_update)
qed

theorem clean_backup_dir_ignores_other_entries_witness:
  "is_entry ''/b'' ''/b/z.rdb'' \<and>
   \<not> endswith (drop (length ''/b'' + 1) ''/b/z.rdb'') (file_suffix 1 ''rdb'') \<and>
   map_of (disk (snd (clean_backup_dir ex_world ''/b'' 1 1 ''rdb''))) ''/b/z.rdb''
     = Some (File [] 0) \<and>
   fst (clean_backup_dir (ex_world\<lparr>disk := AList.update ''/b/z.rdb'' (File ''new'' (- 5))
                                               (disk ex_world)\<rparr>) ''/b'' 1 1 ''rdb'')
     = Inr PyNone"
proof -
  have e: "is_entry ''/b'' ''/b/z.rdb''"
    by (simp add: fs_defs)
  have s: "\<not> endswith (drop (length ''/b'' + 1) ''/b/z.rdb'') (file_suffix 1 ''rdb'')"
    by (simp add: fs_defs)
  have z: "map_of (disk ex_world) ''/b/z.rdb'' = Some (File [] 0)"
    by (simp add: ex_defs)
  have r: "fst (clean_backup_dir ex_world ''/b'' 1 1 ''rdb'') = Inr PyNone"
    by (simp add: ex_clean_one)
  show ?thesis
    using clean_backup_dir_ignores_other_entries
            [OF e s, where w = ex_world and maxb = 1 and n = "File ''new'' (- 5)"] e s z r
    by simp
qed

section \<open>The copy: a failed checksum\<close>

lemma file_md5_loop_all: "0 < blocksize \<Longrightarrow> file_md5_loop blocksize f fed = fed @ f"
proof (induction blocksize f fed rule: file_md5_loop.induct)
  case (1 blocksize f fed)
  show ?case
  proof (cases "take blocksize f = []")
    case True
    then have "f = []" using "1.prems" by simp
    then show ?thesis by (simp add: file_md5_loop.simps)
  next
    case False
    then have "file_md5_loop blocksize (drop blocksize f) (fed @ take blocksize f)
                 = (fed @ take blocksize f) @ drop blocksize f"
      using "1.IH" "1.prems" by simp
    then show ?thesis using False by (subst file_md5_loop.simps) simp
  qed
qed

lemma file_md5_digest:
  "0 < blocksize \<Longrightarrow>
   file_md5 e fs p blocksize =
     (case map_of fs p of Some (File c t) \<Rightarrow> Inr (md5 e c) | _ \<Rightarrow> Inl IOError)"
  by (simp add: file_md5_def file_md5_loop_all split: option.split node.split)

lemma isdir_exists: "path_isdir fs p \<Longrightarrow> path_exists fs p"
  by (auto simp: path_isdir_def path_exists_def split: option.splits)

lemma checksum_compare_isfile:
  "checksum_compare e fs src dst = Inr same \<Longrightarrow> path_isfile fs src \<and> path_isfile fs dst"
  by (simp add: checksum_compare_def split: if_splits)

lemma copy_and_check_failure:
  assumes "copy_and_check e w src dst = (res, w')"
    and "log w' = log w @ [(FATAL, ''failed to copy dbfile %s, checksum compare failed.'', [PyStr src])]"
  shows "res = Inr PyNone \<and> path_isfile (disk w') dst"
proof (cases "shutil_copy2 (disk w) src dst")
  case (Inl x)
  then show ?thesis using assms by (auto simp: copy_and_check_def)
next
  case (Inr fs1)
  define fs2 where "fs2 = (case rewritten e src of None \<Rightarrow> fs1
                           | Some (c, t) \<Rightarrow> AList.update src (File c t) fs1)"
  show ?thesis
  proof (cases "checksum_compare e fs2 src dst")
    case (Inl x)
    then show ?thesis using assms Inr by (auto simp: copy_and_check_def fs2_def [symmetric] Let_def)
  next
    case cmp: (Inr same)
    then have f: "path_isfile fs2 dst" by (simp add: checksum_compare_isfile)
    show ?thesis
    proof (cases same)
      case True
      then show ?thesis
        using assms Inr cmp
        by (auto simp: copy_and_check_def fs2_def [symmetric] logger_def Let_def split: sum.splits)
    next
      case False
      then show ?thesis
        using assms Inr cmp f
        by (auto simp: copy_and_check_def fs2_def [symmetric] logger_def Let_def)
    qed
  qed
qed

lemma ex_copy_live:
  "copy_data_file ex_live_env ex_world ''/d/dump.rdb'' ''/b'' ''n(port_1)'' 1 ''rdb'' =
     (Inr PyNone,
      \<lparr>disk = [(''/'', Dir 0), (''/b'', Dir 0), (''/b/a(port_1).rdb'', File ''x'' 3),
               (''/b/c(port_1).rdb'', File ''y'' 1), (''/b/z.rdb'', File [] 0), (''/d'', Dir 0),
               (''/d/dump.rdb'', File ''other'' 9), (''/b/n(port_1).rdb'', File ''data'' 7)],
       log = [(FATAL, ''failed to copy dbfile %s, checksum compare failed.'',
                [PyStr ''/d/dump.rdb''])]\<rparr>)"
  by (simp add: ex_defs ex_live_env_def fs_defs copy_data_file_def copy_and_check_def
      checksum_compare_def file_md5_digest Let_def)

text \<open>
  Claim C1, as the code has it. When \<^verbatim>\<open>copy_data_file\<close> has written the destination and
  the comparison of the checksums fails (the call logs the checksum failure of line 107),
  it returns \<^verbatim>\<open>None\<close> and the destination is still a file on the disk: the body has
  no \<^verbatim>\<open>os.remove\<close>.
\<close>

theorem copy_data_file_checksum_failure:
  assumes "path_getmtime (disk w) data_file = Inr t"
    and "copy_data_file e w data_file bdir tmpl port ft = (res, w')"
    and "log w' = log w @ [(FATAL, ''failed to copy dbfile %s, checksum compare failed.'',
                            [PyStr data_file])]"
  shows "res = Inr PyNone \<and>
         path_isfile (disk w') (path_join bdir (strftime e tmpl t @ ''.'' @ ft))"
proof -
  let ?dst = "path_join bdir (strftime e tmpl t @ ''.'' @ ft)"
  show ?thesis
  proof (cases "path_exists (disk w) bdir")
    case False
    show ?thesis
    proof (cases "os_makedirs (mkdir_time e) (disk w) bdir")
      case (Inl x)
      then show ?thesis using assms False by (auto simp: copy_data_file_def)
    next
      case (Inr fs')
      then have "copy_and_check e (w\<lparr>disk := fs'\<rparr>) data_file ?dst = (res, w')"
        using assms(1,2) False by (simp add: copy_data_file_def)
      moreover have "log w' = log (w\<lparr>disk := fs'\<rparr>) @
          [(FATAL, ''failed to copy dbfile %s, checksum compare failed.'', [PyStr data_file])]"
        using assms(3) by simp
      ultimately show ?thesis by (rule copy_and_check_failure)
    qed
  next
    case True
    show ?thesis
    proof (cases "path_isdir (disk w) bdir \<and> \<not> path_exists (disk w) ?dst")
      case False
      then show ?thesis
        using assms True by (auto simp: copy_data_file_def logger_def Let_def split: if_splits)
    next
      case ok: True
      then have "copy_and_check e w data_file ?dst = (res, w')"
        using assms(1,2) True by (simp add: copy_data_file_def)
      then show ?thesis using assms(3) by (rule copy_and_check_failure)
    qed
  qed
qed

theorem copy_data_file_checksum_failure_witness:
  "path_getmtime (disk ex_world) ''/d/dump.rdb'' = Inr 7 \<and>
   fst (copy_data_file ex_live_env ex_world ''/d/dump.rdb'' ''/b'' ''n(port_1)'' 1 ''rdb'')
     = Inr PyNone \<and>
   path_isfile
     (disk (snd (copy_data_file ex_live_env ex_world ''/d/dump.rdb'' ''/b'' ''n(port_1)'' 1 ''rdb'')))
     ''/b/n(port_1).rdb''"
proof -
  let ?r = "copy_data_file ex_live_env ex_world ''/d/dump.rdb'' ''/b'' ''n(port_1)'' 1 ''rdb''"
  have t: "path_getmtime (disk ex_world) ''/d/dump.rdb'' = Inr 7"
    by (simp add: ex_defs fs_defs)
  have l: "log (snd ?r) = log ex_world @
             [(FATAL, ''failed to copy dbfile %s, checksum compare failed.'',
               [PyStr ''/d/dump.rdb''])]"
    by (simp add: ex_copy_live) (simp add: ex_defs)
  have "fst ?r = Inr PyNone \<and>
        path_isfile (disk (snd ?r))
          (path_join ''/b'' (strftime ex_live_env ''n(port_1)'' 7 @ ''.'' @ ''rdb''))"
    using copy_data_file_checksum_failure [OF t surjective_pairing l] .
  then show ?thesis using t by (simp add: ex_defs ex_live_env_def fs_defs)
qed

text \<open>
  Claim C1 as the specification words it fails: the store rewrites its data file during
  the copy, the checksums differ, the call returns \<^verbatim>\<open>None\<close>, and the destination, which
  did not exist before, is left on the disk with the bytes that were copied.
\<close>

theorem copy_data_file_leaves_corrupt_copy:
  "\<not> path_exists (disk ex_world) ''/b/n(port_1).rdb'' \<and>
   fst (copy_data_file ex_live_env ex_world ''/d/dump.rdb'' ''/b'' ''n(port_1)'' 1 ''rdb'')
     = Inr PyNone \<and>
   log (snd (copy_data_file ex_live_env ex_world ''/d/dump.rdb'' ''/b'' ''n(port_1)'' 1 ''rdb''))
     = [(FATAL, ''failed to copy dbfile %s, checksum compare failed.'', [PyStr ''/d/dump.rdb''])] \<and>
   map_of (disk (snd (copy_data_file ex_live_env ex_world ''/d/dump.rdb'' ''/b'' ''n(port_1)'' 1 ''rdb'')))
     ''/b/n(port_1).rdb'' = Some (File ''data'' 7) \<and>
   map_of (disk (snd (copy_data_file ex_live_env ex_world ''/d/dump.rdb'' ''/b'' ''n(port_1)'' 1 ''rdb'')))
     ''/d/dump.rdb'' = Some (File ''other'' 9)"
  by (simp add: ex_copy_live) (simp add: ex_defs fs_defs)

section \<open>The copy: a destination that exists\<close>

text \<open>
  Claim C7. When the backup directory is a directory and the destination derived from
  the data file's modification time exists, \<^verbatim>\<open>copy_data_file\<close> returns \<^verbatim>\<open>None\<close>, logs
  that the file exists and leaves the disk as it was.
\<close>

theorem copy_data_file_refuses_existing:
  assumes "path_getmtime (disk w) data_file = Inr t"
    and "path_isdir (disk w) bdir"
    and "path_exists (disk w) (path_join bdir (strftime e tmpl t @ ''.'' @ ft))"
  shows "copy_data_file e w data_file bdir tmpl port ft =
           (Inr PyNone,
            w\<lparr>log := log w @ [(FATAL, ''backupfile: %s already exists.'',
                                 [PyStr (path_join bdir (strftime e tmpl t @ ''.'' @ ft))])]\<rparr>) \<and>
         disk (snd (copy_data_file e w data_file bdir tmpl port ft)) = disk w"
  using assms by (simp add: copy_data_file_def isdir_exists logger_def)

theorem copy_data_file_refuses_existing_witness:
  "path_getmtime (disk ex_world) ''/d/dump.rdb'' = Inr 7 \<and>
   path_isdir (disk ex_world) ''/b'' \<and>
   path_exists (disk ex_world) ''/b/a(port_1).rdb'' \<and>
   fst (copy_data_file ex_env ex_world ''/d/dump.rdb'' ''/b'' ''a(port_1)'' 1 ''rdb'') = Inr PyNone \<and>
   disk (snd (copy_data_file ex_env ex_world ''/d/dump.rdb'' ''/b'' ''a(port_1)'' 1 ''rdb''))
     = disk ex_world"
proof -
  have t: "path_getmtime (disk ex_world) ''/d/dump.rdb'' = Inr 7"
    by (simp add: ex_defs fs_defs)
  have d: "path_isdir (disk ex_world) ''/b''"
    by (simp add: ex_defs fs_defs)
  have p: "path_join ''/b'' (strftime ex_env ''a(port_1)'' 7 @ ''.'' @ ''rdb'') = ''/b/a(port_1).rdb''"
    by (simp add: ex_defs fs_defs)
  have x: "path_exists (disk ex_world) (path_join ''/b'' (strftime ex_env ''a(port_1)'' 7 @ ''.'' @ ''rdb''))"
    unfolding p by (simp add: ex_defs fs_defs)
  show ?thesis
    using copy_data_file_refuses_existing [OF t d x, of 1] t d x unfolding p by simp
qed

section \<open>The wait for the save\<close>

lemma wait_loop_skip:
  assumes "i \<le> k"
    and "\<forall>j. i \<le> j \<and> j < k \<longrightarrow>
           lastsave r (rounds j) = t0 \<and> now r (rounds j @ [LASTSAVE]) - b \<le> timeout"
  shows "wait_loop r b t0 timeout (rounds i) = wait_loop r b t0 timeout (rounds k)"
  using assms
proof (induction rule: inc_induct)
  case base
  show ?case by simp
next
  case (step n)
  have "lastsave r (rounds n) = t0 \<and> now r (rounds n @ [LASTSAVE]) - b \<le> timeout"
    using step.hyps step.prems by simp
  then have "wait_loop r b t0 timeout (rounds n) = wait_loop r b t0 timeout (rounds (Suc n))"
    by (subst wait_loop.simps) simp
  moreover have "wait_loop r b t0 timeout (rounds (Suc n)) = wait_loop r b t0 timeout (rounds k)"
    using step.prems by (intro step.IH) simp
  ultimately show ?case by simp
qed

lemma wait_loop_ok:
  "lastsave r h \<noteq> t0 \<Longrightarrow> wait_loop r b t0 timeout h = Some (''ok'', h @ [LASTSAVE])"
  by (subst wait_loop.simps) simp

lemma wait_loop_timeout:
  "lastsave r h = t0 \<Longrightarrow> now r (h @ [LASTSAVE]) - b > timeout \<Longrightarrow>
   wait_loop r b t0 timeout h = Some (''timeout'', h @ [LASTSAVE, NOW])"
  by (subst wait_loop.simps) simp

text \<open>
  A loop that returns has made the calls it was entered with, and then its own.
\<close>

lemma wait_loop_prefix:
  assumes "wait_loop r b t0 timeout h = Some y"
  shows "take (length h) (snd y) = h"
proof (rule wait_loop.raw_induct
         [where P = "\<lambda>r b t0 timeout h y. take (length h) (snd y) = h", OF _ assms])
  fix loop r b t0 timeout h y
  assume IH: "\<And>r b t0 timeout h y.
                loop r b t0 timeout h = Some y \<Longrightarrow> take (length h) (snd y) = h"
    and eq: "(if lastsave r h \<noteq> t0 then Some (''ok'', h @ [LASTSAVE])
              else if timeout < now r (h @ [LASTSAVE]) - b
                   then Some (''timeout'', h @ [LASTSAVE, NOW])
                   else loop r b t0 timeout (h @ [LASTSAVE, NOW, SLEEP])) = Some y"
  show "take (length h) (snd y) = h"
  proof (cases "lastsave r h \<noteq> t0")
    case True
    then show ?thesis using eq by auto
  next
    case False
    show ?thesis
    proof (cases "timeout < now r (h @ [LASTSAVE]) - b")
      case True
      then show ?thesis using False eq by auto
    next
      case no: False
      have "loop r b t0 timeout (h @ [LASTSAVE, NOW, SLEEP]) = Some y"
        using False no eq by simp
      then have "take (length (h @ [LASTSAVE, NOW, SLEEP])) (snd y) = h @ [LASTSAVE, NOW, SLEEP]"
        by (rule IH)
      then have "take (length h) (take (length (h @ [LASTSAVE, NOW, SLEEP])) (snd y)) = h"
        by simp
      then show ?thesis by (simp add: min_def)
    qed
  qed
qed

lemma bgsave_and_wait_calls_begin:
  assumes "bgsave_and_wait_calls r timeout = Some (res, h)"
  shows "take 3 h = [NOW, LASTSAVE, BGSAVE]"
proof (cases "bgsave r [NOW, LASTSAVE]")
  case True
  then have "wait_loop r (now r []) (lastsave r [NOW]) timeout [NOW, LASTSAVE, BGSAVE]
               = Some (res, h)"
    using assms by (simp add: bgsave_and_wait_calls_def)
  from wait_loop_prefix [OF this] show ?thesis by (simp add: numeral_3_eq_3)
next
  case False
  then show ?thesis using assms by (auto simp: bgsave_and_wait_calls_def)
qed

lemma rounds_sleeps: "length (filter (\<lambda>c. c = SLEEP) (rounds j)) = j"
  by (induction j) simp_all

text \<open>
  Claim C3. The marker \<open>t0\<close> is recorded before the save is triggered: \<open>t0\<close> is the
  store's reply to \<^verbatim>\<open>lastsave\<close> when the only call made so far is the reading of the
  clock, the trigger is sent after it, and every poll is answered by the store after the
  trigger (\<open>rounds j\<close> begins with the clock, \<^verbatim>\<open>lastsave\<close> and \<^verbatim>\<open>bgsave\<close>, in this order).
  If the trigger is rejected the function returns \<^verbatim>\<open>'failed'\<close> and these three calls
  are all it has made: there is no poll. Otherwise let \<open>k\<close> be a number of rounds in each
  of which the marker was \<open>t0\<close> and the time had not run out: if the marker differs from
  \<open>t0\<close> at the next poll the function returns \<^verbatim>\<open>'ok'\<close> with this poll as its last call,
  whatever the clock would read after it; if it does not, and the clock read after this
  poll is more than the timeout past the first reading, the function returns
  \<^verbatim>\<open>'timeout'\<close>. Whatever it returns, its first three calls are the clock, the marker
  and the trigger.
\<close>

theorem bgsave_and_wait_outcomes:
  "(\<not> bgsave r [NOW, LASTSAVE] \<longrightarrow>
      bgsave_and_wait_calls r timeout = Some (''failed'', [NOW, LASTSAVE, BGSAVE]) \<and>
      bgsave_and_wait r timeout = Some ''failed'') \<and>
   (bgsave r [NOW, LASTSAVE] \<and>
    (\<forall>j. j < k \<longrightarrow> lastsave r (rounds j) = lastsave r [NOW] \<and>
                   now r (rounds j @ [LASTSAVE]) - now r [] \<le> timeout) \<and>
    lastsave r (rounds k) \<noteq> lastsave r [NOW] \<longrightarrow>
      bgsave_and_wait_calls r timeout = Some (''ok'', rounds k @ [LASTSAVE]) \<and>
      bgsave_and_wait r timeout = Some ''ok'') \<and>
   (bgsave r [NOW, LASTSAVE] \<and>
    (\<forall>j. j < k \<longrightarrow> lastsave r (rounds j) = lastsave r [NOW] \<and>
                   now r (rounds j @ [LASTSAVE]) - now r [] \<le> timeout) \<and>
    lastsave r (rounds k) = lastsave r [NOW] \<and>
    now r (rounds k @ [LASTSAVE]) - now r [] > timeout \<longrightarrow>
      bgsave_and_wait_calls r timeout = Some (''timeout'', rounds k @ [LASTSAVE, NOW]) \<and>
      bgsave_and_wait r timeout = Some ''timeout'') \<and>
   (\<forall>res h. bgsave_and_wait_calls r timeout = Some (res, h) \<longrightarrow>
      take 3 h = [NOW, LASTSAVE, BGSAVE])"
proof (intro conjI impI allI)
  assume "\<not> bgsave r [NOW, LASTSAVE]"
  then show "bgsave_and_wait_calls r timeout = Some (''failed'', [NOW, LASTSAVE, BGSAVE])"
    and "bgsave_and_wait r timeout = Some ''failed''"
    by (simp_all add: bgsave_and_wait_def bgsave_and_wait_calls_def)
next
  assume h: "bgsave r [NOW, LASTSAVE] \<and>
    (\<forall>j. j < k \<longrightarrow> lastsave r (rounds j) = lastsave r [NOW] \<and>
                   now r (rounds j @ [LASTSAVE]) - now r [] \<le> timeout) \<and>
    lastsave r (rounds k) \<noteq> lastsave r [NOW]"
  then have "wait_loop r (now r []) (lastsave r [NOW]) timeout (rounds 0)
               = wait_loop r (now r []) (lastsave r [NOW]) timeout (rounds k)"
    by (intro wait_loop_skip) simp_all
  also have "\<dots> = Some (''ok'', rounds k @ [LASTSAVE])" using h by (simp add: wait_loop_ok)
  finally show "bgsave_and_wait_calls r timeout = Some (''ok'', rounds k @ [LASTSAVE])"
    using h by (simp add: bgsave_and_wait_calls_def)
  then show "bgsave_and_wait r timeout = Some ''ok''" by (simp add: bgsave_and_wait_def)
next
  assume h: "bgsave r [NOW, LASTSAVE] \<and>
    (\<forall>j. j < k \<longrightarrow> lastsave r (rounds j) = lastsave r [NOW] \<and>
                   now r (rounds j @ [LASTSAVE]) - now r [] \<le> timeout) \<and>
    lastsave r (rounds k) = lastsave r [NOW] \<and>
    now r (rounds k @ [LASTSAVE]) - now r [] > timeout"
  then have "wait_loop r (now r []) (lastsave r [NOW]) timeout (rounds 0)
               = wait_loop r (now r []) (lastsave r [NOW]) timeout (rounds k)"
    by (intro wait_loop_skip) simp_all
  also have "\<dots> = Some (''timeout'', rounds k @ [LASTSAVE, NOW])"
    using h by (simp add: wait_loop_timeout)
  finally show "bgsave_and_wait_calls r timeout = Some (''timeout'', rounds k @ [LASTSAVE, NOW])"
    using h by (simp add: bgsave_and_wait_calls_def)
  then show "bgsave_and_wait r timeout = Some ''timeout''" by (simp add: bgsave_and_wait_def)
next
  fix res h
  assume "bgsave_and_wait_calls r timeout = Some (res, h)"
  then show "take 3 h = [NOW, LASTSAVE, BGSAVE]" by (rule bgsave_and_wait_calls_begin)
qed

text \<open>
  The theorem at work. A store that rejects the trigger gives \<^verbatim>\<open>'failed'\<close>. With
  \<open>ex_redis\<close> and a timeout of 1.5 seconds the marker changes at the third poll, two
  seconds after the first reading of the clock, and the function still returns \<^verbatim>\<open>'ok'\<close>;
  with a timeout of half a second it returns \<^verbatim>\<open>'timeout'\<close> after the second poll. With
  \<open>ex_quick_redis\<close>, whose marker changes with the trigger, the first poll already
  differs from \<open>t0\<close>, which was read before the trigger: the function returns \<^verbatim>\<open>'ok'\<close>
  after four calls.
\<close>

theorem bgsave_and_wait_outcomes_witness:
  "bgsave_and_wait (ex_redis\<lparr>bgsave := (\<lambda>h. False)\<rparr>) 60000000 = Some ''failed'' \<and>
   now ex_redis (rounds 2 @ [LASTSAVE]) - now ex_redis [] > 1500000 \<and>
   bgsave_and_wait_calls ex_redis 1500000 = Some (''ok'', rounds 2 @ [LASTSAVE]) \<and>
   bgsave_and_wait_calls ex_redis 500000 = Some (''timeout'', rounds 1 @ [LASTSAVE, NOW]) \<and>
   lastsave ex_quick_redis [NOW] \<noteq> lastsave ex_quick_redis [NOW, LASTSAVE, BGSAVE] \<and>
   bgsave_and_wait_calls ex_quick_redis 60000000
     = Some (''ok'', [NOW, LASTSAVE, BGSAVE, LASTSAVE]) \<and>
   take 3 [NOW, LASTSAVE, BGSAVE, LASTSAVE] = [NOW, LASTSAVE, BGSAVE]"
proof -
  have a: "\<not> bgsave (ex_redis\<lparr>bgsave := (\<lambda>h. False)\<rparr>) [NOW, LASTSAVE]" by simp
  have b: "bgsave ex_redis [NOW, LASTSAVE] \<and>
    (\<forall>j. j < 2 \<longrightarrow> lastsave ex_redis (rounds j) = lastsave ex_redis [NOW] \<and>
                   now ex_redis (rounds j @ [LASTSAVE]) - now ex_redis [] \<le> 1500000) \<and>
    lastsave ex_redis (rounds 2) \<noteq> lastsave ex_redis [NOW]"
    by (simp add: ex_redis_def rounds_sleeps)
  have c: "bgsave ex_redis [NOW, LASTSAVE] \<and>
    (\<forall>j. j < 1 \<longrightarrow> lastsave ex_redis (rounds j) = lastsave ex_redis [NOW] \<and>
                   now ex_redis (rounds j @ [LASTSAVE]) - now ex_redis [] \<le> 500000) \<and>
    lastsave ex_redis (rounds 1) = lastsave ex_redis [NOW] \<and>
    now ex_redis (rounds 1 @ [LASTSAVE]) - now ex_redis [] > 500000"
    by (simp add: ex_redis_def rounds_sleeps)
  have d: "bgsave ex_quick_redis [NOW, LASTSAVE] \<and>
    (\<forall>j. j < 0 \<longrightarrow> lastsave ex_quick_redis (rounds j) = lastsave ex_quick_redis [NOW] \<and>
                   now ex_quick_redis (rounds j @ [LASTSAVE]) - now ex_quick_redis []
                     \<le> 60000000) \<and>
    lastsave ex_quick_redis (rounds 0) \<noteq> lastsave ex_quick_redis [NOW]"
    by (simp add: ex_quick_redis_def ex_redis_def)
  have late: "now ex_redis (rounds 2 @ [LASTSAVE]) - now ex_redis [] > 1500000"
    by (simp add: ex_redis_def rounds_sleeps)
  have differ: "lastsave ex_quick_redis [NOW] \<noteq> lastsave ex_quick_redis [NOW, LASTSAVE, BGSAVE]"
    by (simp add: ex_quick_redis_def)
  have f: "bgsave_and_wait (ex_redis\<lparr>bgsave := (\<lambda>h. False)\<rparr>) 60000000 = Some ''failed''"
    using bgsave_and_wait_outcomes
            [where r = "ex_redis\<lparr>bgsave := (\<lambda>h. False)\<rparr>" and timeout = 60000000 and k = 0,
              THEN conjunct1, THEN mp, OF a]
    by (rule conjunct2)
  have ok: "bgsave_and_wait_calls ex_redis 1500000 = Some (''ok'', rounds 2 @ [LASTSAVE])"
    using bgsave_and_wait_outcomes
            [where r = ex_redis and timeout = 1500000 and k = 2,
              THEN conjunct2, THEN conjunct1, THEN mp, OF b]
    by (rule conjunct1)
  have tm: "bgsave_and_wait_calls ex_redis 500000
              = Some (''timeout'', rounds 1 @ [LASTSAVE, NOW])"
    using bgsave_and_wait_outcomes
            [where r = ex_redis and timeout = 500000 and k = 1,
              THEN conjunct2, THEN conjunct2, THEN conjunct1, THEN mp, OF c]
    by (rule conjunct1)
  have q: "bgsave_and_wait_calls ex_quick_redis 60000000
             = Some (''ok'', [NOW, LASTSAVE, BGSAVE, LASTSAVE])"
    using bgsave_and_wait_outcomes
            [where r = ex_quick_redis and timeout = 60000000 and k = 0,
              THEN conjunct2, THEN conjunct1, THEN mp, OF d]
    by simp
  have start: "take 3 [NOW, LASTSAVE, BGSAVE, LASTSAVE] = [NOW, LASTSAVE, BGSAVE]"
    using bgsave_and_wait_outcomes
            [where r = ex_quick_redis and timeout = 60000000 and k = 0,
              THEN conjunct2, THEN conjunct2, THEN conjunct2, THEN spec, THEN spec, THEN mp, OF q] .
  show ?thesis using f late ok tm differ q start by (intro conjI)
qed

section \<open>Facts about the run\<close>

lemma disk_logger: "disk (logger l fmt args w) = disk w"
  by (simp add: logger_def)

lemma log_logger: "log (logger l fmt args w) = log w @ [(l, fmt, args)]"
  by (simp add: logger_def)

lemma disk_main_log_start: "disk (main_log_start r a w) = disk w"
  by (simp add: main_log_start_def Let_def disk_logger)

lemma path_join_nonempty: "b \<noteq> [] \<Longrightarrow> path_join a b \<noteq> []"
  by (simp add: path_join_def)

lemma isfile_append_dir: "path_isfile fs q \<Longrightarrow> path_isfile (fs @ [(p, n)]) q"
  by (auto simp: path_isfile_def map_add_def split: option.splits)

lemma mkdir_chain_keeps_files:
  "mkdir_chain t fs ps = Inr fs' \<Longrightarrow> path_isfile fs q \<Longrightarrow> path_isfile fs' q"
proof (induction ps arbitrary: fs)
  case Nil
  then show ?case by simp
next
  case (Cons p ps)
  show ?case
  proof (cases "map_of fs p")
    case None
    then have "mkdir_chain t (fs @ [(p, Dir t)]) ps = Inr fs'" using Cons.prems(1) by simp
    moreover have "path_isfile (fs @ [(p, Dir t)]) q" using Cons.prems(2) by (rule isfile_append_dir)
    ultimately show ?thesis by (rule Cons.IH)
  next
    case (Some n)
    then show ?thesis using Cons by (cases n) simp_all
  qed
qed

lemma isfile_update_file:
  "path_isfile fs q \<Longrightarrow> path_isfile (AList.update p (File c t) fs) q"
  by (simp add: path_isfile_def update_conv')

lemma shutil_copy2_keeps_files:
  "shutil_copy2 fs src dst = Inr fs' \<Longrightarrow> path_isfile fs q \<Longrightarrow> path_isfile fs' q"
  by (auto simp: shutil_copy2_def Let_def isfile_update_file
           split: if_splits option.splits node.splits)

lemma copy_and_check_keeps_files:
  assumes "path_isfile (disk w) q"
  shows "path_isfile (disk (snd (copy_and_check e w src dst))) q"
proof (cases "shutil_copy2 (disk w) src dst")
  case (Inl x)
  then show ?thesis using assms by (simp add: copy_and_check_def)
next
  case (Inr fs1)
  define fs2 where "fs2 = (case rewritten e src of None \<Rightarrow> fs1
                           | Some (c, t) \<Rightarrow> AList.update src (File c t) fs1)"
  have "path_isfile fs1 q" using Inr assms by (rule shutil_copy2_keeps_files)
  then have f2: "path_isfile fs2 q"
    by (auto simp: fs2_def isfile_update_file split: option.splits)
  have "disk (snd (copy_and_check e w src dst)) = fs2"
    using Inr
    by (simp add: copy_and_check_def fs2_def [symmetric] Let_def disk_logger
             split: sum.split)
  then show ?thesis using f2 by simp
qed

lemma copy_data_file_keeps_files:
  assumes "path_isfile (disk w) q"
  shows "path_isfile (disk (snd (copy_data_file e w src bdir tmpl port ft))) q"
proof (cases "path_getmtime (disk w) src")
  case (Inl x)
  then show ?thesis using assms by (simp add: copy_data_file_def)
next
  case (Inr t)
  let ?dst = "path_join bdir (strftime e tmpl t @ ''.'' @ ft)"
  show ?thesis
  proof (cases "path_exists (disk w) bdir")
    case False
    show ?thesis
    proof (cases "os_makedirs (mkdir_time e) (disk w) bdir")
      case (Inl x)
      then show ?thesis using assms Inr False by (simp add: copy_data_file_def)
    next
      case mk: (Inr fs')
      then have "path_isfile fs' q"
        using assms by (auto simp: os_makedirs_def split: if_splits dest: mkdir_chain_keeps_files)
      then have "path_isfile (disk (snd (copy_and_check e (w\<lparr>disk := fs'\<rparr>) src ?dst))) q"
        by (intro copy_and_check_keeps_files) simp
      then show ?thesis using Inr False mk by (simp add: copy_data_file_def)
    qed
  next
    case True
    have "path_isfile (disk (snd (copy_and_check e w src ?dst))) q"
      using assms by (rule copy_and_check_keeps_files)
    then show ?thesis
      using assms Inr True by (simp add: copy_data_file_def Let_def disk_logger)
  qed
qed

lemma copy_and_check_result:
  assumes "copy_and_check e w src dst = (Inr (PyStr p), w')"
  shows "p = dst \<and> path_isfile (disk w') p"
proof (cases "shutil_copy2 (disk w) src dst")
  case (Inl x)
  then show ?thesis using assms by (simp add: copy_and_check_def)
next
  case (Inr fs1)
  define fs2 where "fs2 = (case rewritten e src of None \<Rightarrow> fs1
                           | Some (c, t) \<Rightarrow> AList.update src (File c t) fs1)"
  show ?thesis
  proof (cases "checksum_compare e fs2 src dst")
    case (Inl x)
    then show ?thesis using assms Inr by (simp add: copy_and_check_def fs2_def [symmetric] Let_def)
  next
    case cmp: (Inr same)
    then have "path_isfile fs2 dst" by (simp add: checksum_compare_isfile)
    then show ?thesis
      using assms Inr cmp
      by (auto simp: copy_and_check_def fs2_def [symmetric] Let_def disk_logger
               split: if_splits sum.splits)
  qed
qed

lemma copy_data_file_result:
  assumes "copy_data_file e w src bdir tmpl port ft = (Inr (PyStr p), w')"
  shows "p \<noteq> [] \<and> path_isfile (disk w') p"
proof -
  obtain t where t: "path_getmtime (disk w) src = Inr t"
    using assms by (cases "path_getmtime (disk w) src") (simp_all add: copy_data_file_def)
  let ?dst = "path_join bdir (strftime e tmpl t @ ''.'' @ ft)"
  have ne: "?dst \<noteq> []" by (rule path_join_nonempty) simp
  have "\<exists>w0. copy_and_check e w0 src ?dst = (Inr (PyStr p), w')"
    using assms t
    by (auto simp: copy_data_file_def Let_def split: if_splits sum.splits)
  then obtain w0 where "copy_and_check e w0 src ?dst = (Inr (PyStr p), w')" ..
  then have "p = ?dst \<and> path_isfile (disk w') p" by (rule copy_and_check_result)
  then show ?thesis using ne by auto
qed

lemma files_time_loop_error: "files_time_loop fs d fl acc = Inl x \<Longrightarrow> x = OSError"
proof (induction fl arbitrary: acc)
  case Nil
  then show ?case by simp
next
  case (Cons f fl)
  show ?case
  proof (cases "path_getmtime fs (d @ ''/'' @ f)")
    case (Inl y)
    then have "y = OSError" by (simp add: path_getmtime_def split: option.splits)
    then show ?thesis using Cons.prems Inl by (simp add: Let_def)
  next
    case (Inr t)
    then have "files_time_loop fs d fl (acc @ [(d @ ''/'' @ f, t)]) = Inl x"
      using Cons.prems by (simp add: Let_def)
    then show ?thesis by (rule Cons.IH)
  qed
qed

lemma remove_loop_error: "remove_loop w dels = (Inl x, w') \<Longrightarrow> x = OSError"
proof (induction dels arbitrary: w)
  case Nil
  then show ?case by simp
next
  case (Cons d dels)
  let ?w1 = "logger INFO ''delete %s'' [PyStr (fst d)] w"
  show ?case
  proof (cases "os_remove (disk ?w1) (fst d)")
    case (Inl y)
    then have "y = OSError" by (simp add: os_remove_def split: if_splits)
    then show ?thesis using Cons.prems Inl by (simp add: Let_def)
  next
    case (Inr fs')
    then have "remove_loop (?w1\<lparr>disk := fs'\<rparr>) dels = (Inl x, w')"
      using Cons.prems by (simp add: Let_def)
    then show ?thesis by (rule Cons.IH)
  qed
qed

lemma clean_backup_dir_error:
  assumes "clean_backup_dir w bdir maxb port ft = (Inl x, w')"
  shows "x = OSError \<or> x = AssertionError"
proof (cases "os_listdir (disk w) bdir")
  case (Inl y)
  then have "y = OSError" by (simp add: os_listdir_def split: if_splits)
  then show ?thesis using assms Inl by (simp add: clean_backup_dir_def)
next
  case (Inr names)
  let ?files = "filter (\<lambda>f. endswith f (file_suffix port ft)) names"
  let ?w1 = "logger INFO ''number of backups(%d) exceeds limit(%d), deleting old backups.''
               [PyInt (int (length ?files)), PyInt maxb] w"
  show ?thesis
  proof (cases "int (length ?files) \<le> maxb")
    case True
    then show ?thesis using assms Inr by (simp add: clean_backup_dir_def Let_def)
  next
    case False
    show ?thesis
    proof (cases "files_time_loop (disk ?w1) bdir ?files []")
      case (Inl y)
      then have "y = OSError" by (rule files_time_loop_error)
      then show ?thesis using assms Inr False Inl by (simp add: clean_backup_dir_def Let_def)
    next
      case times: (Inr files_time)
      let ?dels = "take (nat (int (length ?files) - maxb)) (sort_key snd files_time)"
      obtain r w2 where rl: "remove_loop ?w1 ?dels = (r, w2)" by (cases "remove_loop ?w1 ?dels")
      show ?thesis
      proof (cases r)
        case (Inl y)
        then have "y = OSError" using rl remove_loop_error by blast
        then show ?thesis
          using assms Inr False times rl Inl by (simp add: clean_backup_dir_def Let_def)
      next
        case ok: (Inr u)
        show ?thesis
        proof (cases "os_listdir (disk w2) bdir")
          case (Inl y)
          then have "y = OSError" by (simp add: os_listdir_def split: if_splits)
          then show ?thesis
            using assms Inr False times rl ok Inl by (simp add: clean_backup_dir_def Let_def)
        next
          case ls2: (Inr names2)
          then show ?thesis
            using assms Inr False times rl ok
            by (simp add: clean_backup_dir_def Let_def split: if_splits)
        qed
      qed
    qed
  qed
qed

lemma main_clean_error:
  assumes "main_clean a w = (Inl x, w')"
  shows "x = OSError \<or> x = AssertionError"
proof -
  obtain r1 w1 where c1: "clean_rdb_backup w (backup_dir a) (max_backups a) (redis_port a) = (r1, w1)"
    by (cases "clean_rdb_backup w (backup_dir a) (max_backups a) (redis_port a)")
  show ?thesis
  proof (cases r1)
    case (Inl y)
    then have "clean_backup_dir w (backup_dir a) (max_backups a) (redis_port a) ''rdb'' = (Inl y, w1)"
      using c1 by (simp add: clean_rdb_backup_def)
    then have "y = OSError \<or> y = AssertionError" by (rule clean_backup_dir_error)
    then show ?thesis using assms c1 Inl by (simp add: main_clean_def)
  next
    case ok: (Inr u)
    show ?thesis
    proof (cases "with_aof a")
      case False
      then show ?thesis using assms c1 ok by (simp add: main_clean_def)
    next
      case True
      obtain r2 w2 where c2: "clean_aof_backup w1 (backup_dir a) (max_backups a) (redis_port a) = (r2, w2)"
        by (cases "clean_aof_backup w1 (backup_dir a) (max_backups a) (redis_port a)")
      show ?thesis
      proof (cases r2)
        case (Inl y)
        then have "clean_backup_dir w1 (backup_dir a) (max_backups a) (redis_port a) ''aof'' = (Inl y, w2)"
          using c2 by (simp add: clean_aof_backup_def)
        then have "y = OSError \<or> y = AssertionError" by (rule clean_backup_dir_error)
        then show ?thesis using assms c1 ok True c2 Inl by (simp add: main_clean_def)
      next
        case (Inr u')
        then show ?thesis using assms c1 ok True c2 by (simp add: main_clean_def)
      qed
    qed
  qed
qed

lemma copy_data_file_exists:
  assumes "path_getmtime (disk w) data_file = Inr t"
    and "path_isdir (disk w) bdir"
    and "path_exists (disk w) (path_join bdir (strftime e tmpl t @ ''.'' @ ft))"
  shows "copy_data_file e w data_file bdir tmpl port ft =
           (Inr PyNone,
            logger FATAL ''backupfile: %s already exists.''
              [PyStr (path_join bdir (strftime e tmpl t @ ''.'' @ ft))] w)"
  using assms by (simp add: copy_data_file_def isdir_exists)

lemma copy_data_file_success:
  assumes "map_of (disk w) src = Some (File c t)"
    and "path_isdir (disk w) bdir"
    and "dst = path_join bdir (strftime e tmpl t @ ''.'' @ ft)"
    and "\<not> path_exists (disk w) dst"
    and "src \<noteq> dst"
    and "path_isdir (disk w) (path_dirname dst)"
    and "rewritten e src = None"
  shows "copy_data_file e w src bdir tmpl port ft =
           (Inr (PyStr dst),
            logger INFO ''backup %s created. %s bytes, checksum ok!''
              [PyStr dst, PyInt (int (length c))]
              (w\<lparr>disk := AList.update dst (File c t) (disk w)\<rparr>))"
proof -
  have nd: "\<not> path_isdir (disk w) dst"
    using assms(4) by (auto simp: path_isdir_def path_exists_def split: option.splits)
  have cp: "shutil_copy2 (disk w) src dst = Inr (AList.update dst (File c t) (disk w))"
    using assms(1,5,6) nd by (simp add: shutil_copy2_def)
  have cmp: "checksum_compare e (AList.update dst (File c t) (disk w)) src dst = Inr True"
    using assms(1,5)
    by (simp add: checksum_compare_def path_isfile_def update_conv' file_md5_digest)
  have sz: "path_getsize (AList.update dst (File c t) (disk w)) dst = Inr (int (length c))"
    by (simp add: path_getsize_def update_conv')
  have "copy_and_check e w src dst =
           (Inr (PyStr dst),
            logger INFO ''backup %s created. %s bytes, checksum ok!''
              [PyStr dst, PyInt (int (length c))]
              (w\<lparr>disk := AList.update dst (File c t) (disk w)\<rparr>))"
    using cp cmp sz assms(7) by (simp add: copy_and_check_def)
  moreover have "path_getmtime (disk w) src = Inr t"
    using assms(1) by (simp add: path_getmtime_def)
  moreover have "path_exists (disk w) bdir" using assms(2) by (rule isdir_exists)
  ultimately show ?thesis
    using assms(2,3,4) by (simp add: copy_data_file_def Let_def)
qed

lemma ex_save_ok: "bgsave_and_wait ex_redis (timedelta_seconds 60) = Some ''ok''"
  by (simp add: bgsave_and_wait_def bgsave_and_wait_calls_def timedelta_seconds_def ex_redis_def
      wait_loop.simps)

lemma ex_copy_rdb:
  assumes "disk w = ex_disk"
  shows "copy_data_file ex_env w ''/d/dump.rdb'' ''/b'' ''n(port_1)'' 1 ''rdb'' =
           (Inr (PyStr ''/b/n(port_1).rdb''),
            logger INFO ''backup %s created. %s bytes, checksum ok!''
              [PyStr ''/b/n(port_1).rdb'', PyInt 4]
              (w\<lparr>disk := ex_disk @ [(''/b/n(port_1).rdb'', File ''data'' 7)]\<rparr>))"
proof -
  have "copy_data_file ex_env w ''/d/dump.rdb'' ''/b'' ''n(port_1)'' 1 ''rdb'' =
           (Inr (PyStr ''/b/n(port_1).rdb''),
            logger INFO ''backup %s created. %s bytes, checksum ok!''
              [PyStr ''/b/n(port_1).rdb'', PyInt (int (length ''data''))]
              (w\<lparr>disk := AList.update ''/b/n(port_1).rdb'' (File ''data'' 7) (disk w)\<rparr>))"
    by (rule copy_data_file_success) (simp_all add: assms ex_defs fs_defs)
  then show ?thesis by (simp add: assms ex_disk_def)
qed

lemma ex_rdb_path: "rdb_path ex_redis = ''/d/dump.rdb''"
  by (simp add: rdb_path_def ex_redis_def)

lemma ex_aof_path: "aof_path ex_redis ''appendonly.aof'' = ''/d/appendonly.aof''"
  by (simp add: aof_path_def path_join_def ex_redis_def)

lemma ex_copy_aof_missing:
  assumes "disk w = ex_disk @ [(''/b/n(port_1).rdb'', File ''data'' 7)]"
  shows "copy_data_file ex_env w ''/d/appendonly.aof'' ''/b'' ''n(port_1)'' 1 ''aof'' = (Inl OSError, w)"
  by (simp add: copy_data_file_def path_getmtime_def assms ex_disk_def)

lemma ex_run_aof_missing:
  "main ex_env ex_redis (ex_args\<lparr>with_aof := True\<rparr>) ex_world =
     Some (Inl OSError,
       \<lparr>disk =
          [(''/'', Dir 0), (''/b'', Dir 0), (''/b/a(port_1).rdb'', File ''x'' 3),
           (''/b/c(port_1).rdb'', File ''y'' 1), (''/b/z.rdb'', File [] 0),
           (''/d'', Dir 0), (''/d/dump.rdb'', File ''data'' 7),
           (''/b/n(port_1).rdb'', File ''data'' 7)],
        log =
          [(INFO, ''backup begin @ %s'', []),
           (INFO, ''backup dir: %s'', [PyStr ''/b'']),
           (INFO, ''backup file: %s'', [PyStr ''n(port_1)'']),
           (INFO, ''max backups: %s'', [PyInt 2]),
           (INFO, ''redis host: %s'', [PyStr ''localhost'']),
           (INFO, ''redis port: %s'', [PyInt 1]),
           (INFO, ''bgsave timeout: %s seconds'', [PyInt 60]),
           (INFO, ''connected to redis server %s:%d'', [PyStr ''localhost'', PyInt 1]),
           (INFO, ''redis rdb file path: %s'', [PyStr ''/d/dump.rdb'']),
           (INFO, ''redis aof file path: %s'', [PyStr ''/d/appendonly.aof'']),
           (INFO, ''redis bgsave...'', []), (INFO, ''ok'', []),
           (INFO, ''starting copy rdb...'', []),
           (INFO, ''backup %s created. %s bytes, checksum ok!'',
              [PyStr ''/b/n(port_1).rdb'', PyInt 4]),
           (INFO, ''starting copy aof...'', [])]\<rparr>)"
proof -
  let ?a = "ex_args\<lparr>with_aof := True\<rparr>"
  let ?w1 = "logger INFO ''ok'' [] (main_log_start ex_redis ?a ex_world)"
  let ?w1' = "logger INFO ''starting copy rdb...'' [] ?w1"
  let ?w2 = "logger INFO ''backup %s created. %s bytes, checksum ok!''
              [PyStr ''/b/n(port_1).rdb'', PyInt 4]
              (?w1'\<lparr>disk := ex_disk @ [(''/b/n(port_1).rdb'', File ''data'' 7)]\<rparr>)"
  let ?w3 = "logger INFO ''starting copy aof...'' [] ?w2"
  have d1: "disk ?w1' = ex_disk"
    by (simp add: disk_logger disk_main_log_start ex_world_def)
  have rdb: "copy_data_file ex_env ?w1' ''/d/dump.rdb'' ''/b'' ''n(port_1)'' 1 ''rdb'' =
               (Inr (PyStr ''/b/n(port_1).rdb''), ?w2)"
    using d1 by (rule ex_copy_rdb)
  have d3: "disk ?w3 = ex_disk @ [(''/b/n(port_1).rdb'', File ''data'' 7)]"
    by (simp add: disk_logger)
  have aof: "copy_data_file ex_env ?w3 ''/d/appendonly.aof'' ''/b'' ''n(port_1)'' 1 ''aof'' =
               (Inl OSError, ?w3)"
    using d3 by (rule ex_copy_aof_missing)
  have cp: "main_copy ex_env ex_redis ?a ?w1 = (Inl OSError, ?w3)"
    using rdb aof
    by (simp add: main_copy_def copy_rdb_def copy_aof_def ex_rdb_path ex_aof_path ex_args_def
          Let_def)
  have "main ex_env ex_redis ?a ex_world = Some (Inl OSError, ?w3)"
    using cp ex_save_ok by (simp add: main_def Let_def ex_args_def)
  then show ?thesis
    by (simp add: logger_def main_log_start_def Let_def ex_world_def ex_disk_def ex_args_def
          ex_rdb_path ex_aof_path)
qed

lemma ex_copy_rdb_aof_world:
  assumes "disk w = disk ex_aof_world"
  shows "copy_data_file ex_env w ''/d/dump.rdb'' ''/b'' ''n(port_1)'' 1 ''rdb'' =
           (Inr (PyStr ''/b/n(port_1).rdb''),
            logger INFO ''backup %s created. %s bytes, checksum ok!''
              [PyStr ''/b/n(port_1).rdb'', PyInt 4]
              (w\<lparr>disk := disk ex_aof_world @ [(''/b/n(port_1).rdb'', File ''data'' 7)]\<rparr>))"
proof -
  have "copy_data_file ex_env w ''/d/dump.rdb'' ''/b'' ''n(port_1)'' 1 ''rdb'' =
           (Inr (PyStr ''/b/n(port_1).rdb''),
            logger INFO ''backup %s created. %s bytes, checksum ok!''
              [PyStr ''/b/n(port_1).rdb'', PyInt (int (length ''data''))]
              (w\<lparr>disk := AList.update ''/b/n(port_1).rdb'' (File ''data'' 7) (disk w)\<rparr>))"
    by (rule copy_data_file_success) (simp_all add: assms ex_aof_world_def ex_defs fs_defs)
  then show ?thesis by (simp add: assms ex_aof_world_def ex_disk_def)
qed

lemma ex_copy_aof_exists:
  assumes "disk w = disk ex_aof_world @ [(''/b/n(port_1).rdb'', File ''data'' 7)]"
  shows "copy_data_file ex_env w ''/d/appendonly.aof'' ''/b'' ''n(port_1)'' 1 ''aof'' =
           (Inr PyNone, logger FATAL ''backupfile: %s already exists.'' [PyStr ''/b/n(port_1).aof''] w)"
proof -
  have "copy_data_file ex_env w ''/d/appendonly.aof'' ''/b'' ''n(port_1)'' 1 ''aof'' =
          (Inr PyNone,
           logger FATAL ''backupfile: %s already exists.''
             [PyStr (path_join ''/b'' (strftime ex_env ''n(port_1)'' 8 @ ''.'' @ ''aof''))] w)"
    by (rule copy_data_file_exists) (simp_all add: assms ex_aof_world_def ex_defs fs_defs)
  then show ?thesis by (simp add: ex_env_def path_join_def)
qed

lemma ex_copy_rdb_dir_world:
  assumes "disk w = disk ex_dir_world"
  shows "copy_data_file ex_env w ''/d/dump.rdb'' ''/b'' ''n(port_1)'' 1 ''rdb'' =
           (Inr (PyStr ''/b/n(port_1).rdb''),
            logger INFO ''backup %s created. %s bytes, checksum ok!''
              [PyStr ''/b/n(port_1).rdb'', PyInt 4]
              (w\<lparr>disk := disk ex_dir_world @ [(''/b/n(port_1).rdb'', File ''data'' 7)]\<rparr>))"
proof -
  have "copy_data_file ex_env w ''/d/dump.rdb'' ''/b'' ''n(port_1)'' 1 ''rdb'' =
           (Inr (PyStr ''/b/n(port_1).rdb''),
            logger INFO ''backup %s created. %s bytes, checksum ok!''
              [PyStr ''/b/n(port_1).rdb'', PyInt (int (length ''data''))]
              (w\<lparr>disk := AList.update ''/b/n(port_1).rdb'' (File ''data'' 7) (disk w)\<rparr>))"
    by (rule copy_data_file_success) (simp_all add: assms ex_dir_world_def ex_defs fs_defs)
  then show ?thesis by (simp add: assms ex_dir_world_def ex_disk_def)
qed

lemma ex_clean_dir_world:
  assumes "disk w = disk ex_dir_world @ [(''/b/n(port_1).rdb'', File ''data'' 7)]"
  shows "clean_backup_dir w ''/b'' 2 1 ''rdb'' =
           (Inl OSError,
            logger INFO ''delete %s'' [PyStr ''/b/old(port_1).rdb'']
              (logger INFO ''number of backups(%d) exceeds limit(%d), deleting old backups.''
                 [PyInt 4, PyInt 2] w))"
  by (simp add: clean_backup_dir_def assms ex_dir_world_def ex_disk_def fs_defs)

lemma ex_run_dir_world:
  "bgsave_and_wait ex_redis (timedelta_seconds (bgsave_timeout ex_args)) = Some ''ok'' \<and>
   main_copy ex_env ex_redis ex_args (logger INFO ''ok'' [] (main_log_start ex_redis ex_args ex_dir_world))
     = (Inr (),
        logger INFO ''backup %s created. %s bytes, checksum ok!''
          [PyStr ''/b/n(port_1).rdb'', PyInt 4]
          ((logger INFO ''starting copy rdb...'' []
             (logger INFO ''ok'' [] (main_log_start ex_redis ex_args ex_dir_world)))
           \<lparr>disk := disk ex_dir_world @ [(''/b/n(port_1).rdb'', File ''data'' 7)]\<rparr>)) \<and>
   main_clean ex_args
     (logger INFO ''backup %s created. %s bytes, checksum ok!''
          [PyStr ''/b/n(port_1).rdb'', PyInt 4]
          ((logger INFO ''starting copy rdb...'' []
             (logger INFO ''ok'' [] (main_log_start ex_redis ex_args ex_dir_world)))
           \<lparr>disk := disk ex_dir_world @ [(''/b/n(port_1).rdb'', File ''data'' 7)]\<rparr>))
     = (Inl OSError,
        logger INFO ''delete %s'' [PyStr ''/b/old(port_1).rdb'']
          (logger INFO ''number of backups(%d) exceeds limit(%d), deleting old backups.''
             [PyInt 4, PyInt 2]
             (logger INFO ''backup %s created. %s bytes, checksum ok!''
                [PyStr ''/b/n(port_1).rdb'', PyInt 4]
                ((logger INFO ''starting copy rdb...'' []
                   (logger INFO ''ok'' [] (main_log_start ex_redis ex_args ex_dir_world)))
                 \<lparr>disk := disk ex_dir_world @ [(''/b/n(port_1).rdb'', File ''data'' 7)]\<rparr>))))"
proof -
  let ?w1 = "logger INFO ''ok'' [] (main_log_start ex_redis ex_args ex_dir_world)"
  let ?w1' = "logger INFO ''starting copy rdb...'' [] ?w1"
  let ?w2 = "logger INFO ''backup %s created. %s bytes, checksum ok!''
              [PyStr ''/b/n(port_1).rdb'', PyInt 4]
              (?w1'\<lparr>disk := disk ex_dir_world @ [(''/b/n(port_1).rdb'', File ''data'' 7)]\<rparr>)"
  have save: "bgsave_and_wait ex_redis (timedelta_seconds (bgsave_timeout ex_args)) = Some ''ok''"
    using ex_save_ok by (simp add: ex_args_def)
  have d1: "disk ?w1' = disk ex_dir_world"
    by (simp add: disk_logger disk_main_log_start)
  have copy: "main_copy ex_env ex_redis ex_args ?w1 = (Inr (), ?w2)"
    using ex_copy_rdb_dir_world [OF d1]
    by (simp add: main_copy_def copy_rdb_def ex_rdb_path ex_args_def Let_def)
  have d2: "disk ?w2 = disk ex_dir_world @ [(''/b/n(port_1).rdb'', File ''data'' 7)]"
    by (simp add: disk_logger)
  have prune: "main_clean ex_args ?w2 =
     (Inl OSError,
      logger INFO ''delete %s'' [PyStr ''/b/old(port_1).rdb'']
        (logger INFO ''number of backups(%d) exceeds limit(%d), deleting old backups.''
           [PyInt 4, PyInt 2] ?w2))"
    using ex_clean_dir_world [OF d2]
    by (simp add: main_clean_def clean_rdb_backup_def ex_args_def)
  show ?thesis using save copy prune by (intro conjI)
qed

lemma ex_copy_rdb_plain_world:
  assumes "disk w = disk ex_plain_world"
  shows "copy_data_file ex_env w ''/d/dump.rdb'' ''/b'' ''dump'' 1 ''rdb'' =
           (Inr (PyStr ''/b/dump.rdb''),
            logger INFO ''backup %s created. %s bytes, checksum ok!''
              [PyStr ''/b/dump.rdb'', PyInt 4]
              (w\<lparr>disk := disk ex_plain_world @ [(''/b/dump.rdb'', File ''data'' 7)]\<rparr>))"
proof -
  have "copy_data_file ex_env w ''/d/dump.rdb'' ''/b'' ''dump'' 1 ''rdb'' =
           (Inr (PyStr ''/b/dump.rdb''),
            logger INFO ''backup %s created. %s bytes, checksum ok!''
              [PyStr ''/b/dump.rdb'', PyInt (int (length ''data''))]
              (w\<lparr>disk := AList.update ''/b/dump.rdb'' (File ''data'' 7) (disk w)\<rparr>))"
    by (rule copy_data_file_success) (simp_all add: assms ex_plain_world_def ex_defs fs_defs)
  then show ?thesis by (simp add: assms ex_plain_world_def)
qed

lemma ex_clean_plain_world:
  assumes "disk w = disk ex_plain_world @ [(''/b/dump.rdb'', File ''data'' 7)]"
  shows "clean_backup_dir w ''/b'' 1 1 ''rdb'' = (Inr PyNone, w)"
  by (simp add: clean_backup_dir_def assms ex_plain_world_def fs_defs)

section \<open>The run: a save that is not ok\<close>

text \<open>
  Claim C6. When \<^verbatim>\<open>bgsave_and_wait\<close> returns anything but \<^verbatim>\<open>'ok'\<close>, \<^verbatim>\<open>main\<close> logs the
  outcome and the failure and leaves through \<^verbatim>\<open>sys.exit(1)\<close>: no copy is attempted (the
  log ends with these two entries), the disk is as it was before the run, and the exit
  status is 1.
\<close>

theorem main_aborts_when_save_not_ok:
  assumes "bgsave_and_wait r (timedelta_seconds (bgsave_timeout a)) = Some ret"
    and "ret \<noteq> ''ok''"
  shows "main e r a w =
           Some (Inl (SystemExit 1),
                 logger FATAL ''%s %s'' [PyStr ''backup failed!'']
                   (logger INFO ret [] (main_log_start r a w))) \<and>
         disk (logger FATAL ''%s %s'' [PyStr ''backup failed!'']
                 (logger INFO ret [] (main_log_start r a w))) = disk w \<and>
         exit_status (Inl (SystemExit 1)) = 1"
  using assms by (simp add: main_def Let_def disk_logger disk_main_log_start exit_status_def)

theorem main_aborts_when_save_not_ok_witness:
  "bgsave_and_wait (ex_redis\<lparr>bgsave := (\<lambda>h. False)\<rparr>)
     (timedelta_seconds (bgsave_timeout ex_args)) = Some ''failed'' \<and>
   map_option fst (main ex_env (ex_redis\<lparr>bgsave := (\<lambda>h. False)\<rparr>) ex_args ex_world)
     = Some (Inl (SystemExit 1)) \<and>
   map_option (\<lambda>x. disk (snd x))
     (main ex_env (ex_redis\<lparr>bgsave := (\<lambda>h. False)\<rparr>) ex_args ex_world)
     = Some (disk ex_world)"
proof -
  have s: "bgsave_and_wait (ex_redis\<lparr>bgsave := (\<lambda>h. False)\<rparr>)
             (timedelta_seconds (bgsave_timeout ex_args)) = Some ''failed''"
    by (simp add: bgsave_and_wait_def bgsave_and_wait_calls_def)
  have n: "''failed'' \<noteq> ''ok''" by simp
  show ?thesis
    using main_aborts_when_save_not_ok [OF s n, of ex_env ex_world] s
    by (simp add: disk_logger disk_main_log_start)
qed

section \<open>The run: a failed second copy\<close>

text \<open>
  The compensation of lines 280 to 284. In a run with \<^verbatim>\<open>-with_aof\<close> in which the save is
  ok, the copy of the rdb file returns the path \<open>p\<close> of the backup and the copy of the aof
  file returns \<^verbatim>\<open>None\<close>, \<^verbatim>\<open>main\<close> removes \<open>p\<close>, logs the removal and the failure and
  leaves through \<^verbatim>\<open>sys.exit(1)\<close>: after the run no file is at \<open>p\<close> and the exit status
  is 1.
\<close>

lemma main_removes_primary_after_failed_aof_copy:
  assumes save: "bgsave_and_wait r (timedelta_seconds (bgsave_timeout a)) = Some ''ok''"
    and aof: "with_aof a"
    and rdb: "copy_rdb e (logger INFO ''starting copy rdb...'' []
                           (logger INFO ''ok'' [] (main_log_start r a w)))
                (rdb_path r) (backup_dir a) (backup_filename a) (redis_port a)
              = (Inr (PyStr p), w2)"
    and none: "copy_aof e (logger INFO ''starting copy aof...'' [] w2)
                 (aof_path r (aof_filename a)) (backup_dir a) (backup_filename a) (redis_port a)
               = (Inr PyNone, w4)"
  shows "main e r a w =
           Some (Inl (SystemExit 1),
                 logger FATAL ''%s %s'' [PyStr ''backup failed!'']
                   (logger FATAL ''remove %s'' [PyStr p]
                      (w4\<lparr>disk := AList.delete p (disk w4)\<rparr>))) \<and>
         \<not> path_exists (AList.delete p (disk w4)) p \<and>
         exit_status (Inl (SystemExit 1)) = 1"
proof -
  have "p \<noteq> [] \<and> path_isfile (disk w2) p"
    using rdb unfolding copy_rdb_def by (rule copy_data_file_result)
  then have ne: "p \<noteq> []" and f2: "path_isfile (disk (logger INFO ''starting copy aof...'' [] w2)) p"
    by (simp_all add: disk_logger)
  have "path_isfile (disk (snd (copy_data_file e (logger INFO ''starting copy aof...'' [] w2)
          (aof_path r (aof_filename a)) (backup_dir a) (backup_filename a) (redis_port a) ''aof''))) p"
    using f2 by (rule copy_data_file_keeps_files)
  then have f4: "path_isfile (disk w4) p" using none by (simp add: copy_aof_def)
  then have rm: "os_remove_val (disk w4) (PyStr p) = Inr (AList.delete p (disk w4))"
    by (simp add: os_remove_val_def os_remove_def)
  have gone: "\<not> path_exists (AList.delete p (disk w4)) p"
    by (simp add: path_exists_def AList.delete_conv)
  have "main_copy e r a (logger INFO ''ok'' [] (main_log_start r a w)) =
          (Inl (SystemExit 1),
           logger FATAL ''%s %s'' [PyStr ''backup failed!'']
             (logger FATAL ''remove %s'' [PyStr p] (w4\<lparr>disk := AList.delete p (disk w4)\<rparr>)))"
    using aof rdb none ne rm by (simp add: main_copy_def Let_def)
  then have "main e r a w =
           Some (Inl (SystemExit 1),
                 logger FATAL ''%s %s'' [PyStr ''backup failed!'']
                   (logger FATAL ''remove %s'' [PyStr p]
                      (w4\<lparr>disk := AList.delete p (disk w4)\<rparr>)))"
    using save by (simp add: main_def Let_def)
  then show ?thesis using gone by (simp add: exit_status_def)
qed

text \<open>
  A run of this kind: the aof backup of the same name exists already, so the copy of the
  aof file returns \<^verbatim>\<open>None\<close>.
\<close>

lemma ex_run_removes_primary:
  "with_aof (ex_args\<lparr>with_aof := True\<rparr>) \<and>
   bgsave_and_wait ex_redis (timedelta_seconds (bgsave_timeout (ex_args\<lparr>with_aof := True\<rparr>)))
     = Some ''ok'' \<and>
   map_option fst (main ex_env ex_redis (ex_args\<lparr>with_aof := True\<rparr>) ex_aof_world)
     = Some (Inl (SystemExit 1)) \<and>
   map_option (\<lambda>x. path_exists (disk (snd x)) ''/b/n(port_1).rdb'')
     (main ex_env ex_redis (ex_args\<lparr>with_aof := True\<rparr>) ex_aof_world) = Some False"
proof -
  let ?a = "ex_args\<lparr>with_aof := True\<rparr>"
  let ?w1' = "logger INFO ''starting copy rdb...'' []
               (logger INFO ''ok'' [] (main_log_start ex_redis ?a ex_aof_world))"
  let ?w2 = "logger INFO ''backup %s created. %s bytes, checksum ok!''
              [PyStr ''/b/n(port_1).rdb'', PyInt 4]
              (?w1'\<lparr>disk := disk ex_aof_world @ [(''/b/n(port_1).rdb'', File ''data'' 7)]\<rparr>)"
  let ?w3 = "logger INFO ''starting copy aof...'' [] ?w2"
  let ?w4 = "logger FATAL ''backupfile: %s already exists.'' [PyStr ''/b/n(port_1).aof''] ?w3"
  have a: "with_aof ?a" by simp
  have save: "bgsave_and_wait ex_redis (timedelta_seconds (bgsave_timeout ?a)) = Some ''ok''"
    using ex_save_ok by (simp add: ex_args_def)
  have d1: "disk ?w1' = disk ex_aof_world"
    by (simp add: disk_logger disk_main_log_start)
  have rdb: "copy_rdb ex_env ?w1' (rdb_path ex_redis) (backup_dir ?a) (backup_filename ?a)
               (redis_port ?a) = (Inr (PyStr ''/b/n(port_1).rdb''), ?w2)"
    using ex_copy_rdb_aof_world [OF d1] by (simp add: copy_rdb_def ex_rdb_path ex_args_def)
  have d3: "disk ?w3 = disk ex_aof_world @ [(''/b/n(port_1).rdb'', File ''data'' 7)]"
    by (simp add: disk_logger)
  have none: "copy_aof ex_env ?w3 (aof_path ex_redis (aof_filename ?a)) (backup_dir ?a)
                (backup_filename ?a) (redis_port ?a) = (Inr PyNone, ?w4)"
    using ex_copy_aof_exists [OF d3] by (simp add: copy_aof_def ex_aof_path ex_args_def)
  show ?thesis
    using main_removes_primary_after_failed_aof_copy [OF save a rdb none] a save
    by (simp add: disk_logger)
qed

text \<open>
  Claim C2 fails on the code. \<^verbatim>\<open>copy_aof\<close> is documented to return the path of the backup
  or \<^verbatim>\<open>None\<close>, and \<^verbatim>\<open>main\<close> removes the rdb backup when it gets \<^verbatim>\<open>None\<close>; but
  \<^verbatim>\<open>copy_data_file\<close> reads the modification time of the data file (line 90) before any
  of its checks, and nothing in the script catches an exception. With \<^verbatim>\<open>-with_aof\<close> and no
  aof file in the store's directory the rdb file is copied, \<^verbatim>\<open>os.path.getmtime\<close> raises
  in \<^verbatim>\<open>copy_aof\<close>, and the exception leaves \<^verbatim>\<open>main\<close>: the last entry of the log is the
  start of the aof copy, the exit status is 1, and the rdb backup stays on the disk.
\<close>

theorem main_leaves_primary_when_aof_copy_raises:
  "with_aof (ex_args\<lparr>with_aof := True\<rparr>) \<and>
   \<not> path_exists (disk ex_world) ''/b/n(port_1).rdb'' \<and>
   \<not> path_exists (disk ex_world) ''/d/appendonly.aof'' \<and>
   map_option fst (main ex_env ex_redis (ex_args\<lparr>with_aof := True\<rparr>) ex_world)
     = Some (Inl OSError) \<and>
   map_option (\<lambda>x. exit_status (fst x))
     (main ex_env ex_redis (ex_args\<lparr>with_aof := True\<rparr>) ex_world) = Some 1 \<and>
   map_option (\<lambda>x. map_of (disk (snd x)) ''/b/n(port_1).rdb'')
     (main ex_env ex_redis (ex_args\<lparr>with_aof := True\<rparr>) ex_world)
     = Some (Some (File ''data'' 7)) \<and>
   map_option (\<lambda>x. last (log (snd x)))
     (main ex_env ex_redis (ex_args\<lparr>with_aof := True\<rparr>) ex_world)
     = Some (INFO, ''starting copy aof...'', [])"
  by (simp add: ex_run_aof_missing exit_status_def) (simp add: ex_defs fs_defs)

section \<open>The run: a failure of retention\<close>

text \<open>
  Claim C5, as the code has it. In a run in which the save is ok and the copies succeed,
  an exception raised by retention (an \<^verbatim>\<open>OSError\<close> of the listing or of a deletion, or
  the failed assertion of line 164) leaves \<^verbatim>\<open>main\<close>: the run ends with that exception
  and the exit status is 1.
\<close>

theorem main_aborts_when_pruning_fails:
  assumes save: "bgsave_and_wait r (timedelta_seconds (bgsave_timeout a)) = Some ''ok''"
    and copy: "main_copy e r a (logger INFO ''ok'' [] (main_log_start r a w)) = (Inr (), w2)"
    and prune: "main_clean a w2 = (Inl x, w3)"
  shows "main e r a w = Some (Inl x, w3) \<and> (x = OSError \<or> x = AssertionError) \<and>
         exit_status (Inl x) = 1"
proof -
  have x: "x = OSError \<or> x = AssertionError" using prune by (rule main_clean_error)
  have "main e r a w = Some (Inl x, w3)"
    using save copy prune by (simp add: main_def Let_def)
  then show ?thesis using x by (auto simp: exit_status_def)
qed

theorem main_aborts_when_pruning_fails_witness:
  "bgsave_and_wait ex_redis (timedelta_seconds (bgsave_timeout ex_args)) = Some ''ok'' \<and>
   fst (main_copy ex_env ex_redis ex_args
          (logger INFO ''ok'' [] (main_log_start ex_redis ex_args ex_dir_world))) = Inr () \<and>
   map_option fst (main ex_env ex_redis ex_args ex_dir_world) = Some (Inl OSError) \<and>
   exit_status (Inl OSError) = 1"
proof -
  note run = ex_run_dir_world
  have "map_option fst (main ex_env ex_redis ex_args ex_dir_world) = Some (Inl OSError) \<and>
        exit_status (Inl OSError) = 1"
    using main_aborts_when_pruning_fails
            [OF run [THEN conjunct1] run [THEN conjunct2, THEN conjunct1]
                run [THEN conjunct2, THEN conjunct2]]
    by simp
  then show ?thesis using run by simp
qed

text \<open>
  Claim C5 as the specification words it fails: the backup directory holds a directory
  whose name ends with the suffix, the save is ok and the rdb file is copied, retention
  has to delete the two oldest of four entries, \<^verbatim>\<open>os.remove\<close> raises on the directory,
  and the process exits with status 1, the attempted deletion being the last entry of
  the log.
\<close>

theorem main_exits_nonzero_when_pruning_fails:
  "bgsave_and_wait ex_redis (timedelta_seconds (bgsave_timeout ex_args)) = Some ''ok'' \<and>
   fst (main_copy ex_env ex_redis ex_args
          (logger INFO ''ok'' [] (main_log_start ex_redis ex_args ex_dir_world))) = Inr () \<and>
   map_option (\<lambda>x. exit_status (fst x)) (main ex_env ex_redis ex_args ex_dir_world) = Some 1 \<and>
   map_option (\<lambda>x. last (log (snd x))) (main ex_env ex_redis ex_args ex_dir_world)
     = Some (INFO, ''delete %s'', [PyStr ''/b/old(port_1).rdb''])"
  using ex_run_dir_world
  by (simp add: main_def Let_def exit_status_def log_logger)

section \<open>The run: backups that retention does not count\<close>

text \<open>
  Claim C8 fails on the code. \<^verbatim>\<open>copy_data_file\<close> names the backup after the template and
  the file type only (its parameter \<^verbatim>\<open>port\<close> is unused), while \<^verbatim>\<open>clean_backup_dir\<close>
  counts the names that end with \<^verbatim>\<open>(port_<port>).<file_type>\<close>. With a template that
  does not end with the port, as the default one, a completed run with a limit of one
  leaves three rdb backups in the directory, and none of them, the new one included, is
  among the files that retention counts.
\<close>

theorem main_backup_not_counted:
  "max_backups ex_plain_args = 1 \<and> redis_port ex_plain_args = 1 \<and>
   map_option fst (main ex_env ex_redis ex_plain_args ex_plain_world) = Some (Inr ()) \<and>
   map_option (\<lambda>x. os_listdir (disk (snd x)) ''/b'')
     (main ex_env ex_redis ex_plain_args ex_plain_world)
     = Some (Inr [''old.rdb'', ''older.rdb'', ''dump.rdb'']) \<and>
   map_option (\<lambda>x. backup_paths (disk (snd x)) ''/b'' 1 ''rdb'')
     (main ex_env ex_redis ex_plain_args ex_plain_world) = Some []"
proof -
  let ?a = ex_plain_args
  let ?w1 = "logger INFO ''ok'' [] (main_log_start ex_redis ?a ex_plain_world)"
  let ?w1' = "logger INFO ''starting copy rdb...'' [] ?w1"
  let ?w2 = "logger INFO ''backup %s created. %s bytes, checksum ok!''
              [PyStr ''/b/dump.rdb'', PyInt 4]
              (?w1'\<lparr>disk := disk ex_plain_world @ [(''/b/dump.rdb'', File ''data'' 7)]\<rparr>)"
  let ?w3 = "logger INFO ''backup successful! time cost: %s seconds'' [] ?w2"
  have save: "bgsave_and_wait ex_redis (timedelta_seconds (bgsave_timeout ?a)) = Some ''ok''"
    using ex_save_ok by (simp add: ex_plain_args_def ex_args_def)
  have d1: "disk ?w1' = disk ex_plain_world"
    by (simp add: disk_logger disk_main_log_start)
  have copy: "main_copy ex_env ex_redis ?a ?w1 = (Inr (), ?w2)"
    using ex_copy_rdb_plain_world [OF d1]
    by (simp add: main_copy_def copy_rdb_def ex_rdb_path ex_plain_args_def ex_args_def Let_def)
  have d2: "disk ?w2 = disk ex_plain_world @ [(''/b/dump.rdb'', File ''data'' 7)]"
    by (simp add: disk_logger)
  have prune: "main_clean ?a ?w2 = (Inr (), ?w3)"
    using ex_clean_plain_world [OF d2]
    by (simp add: main_clean_def clean_rdb_backup_def ex_plain_args_def ex_args_def)
  have run: "main ex_env ex_redis ?a ex_plain_world = Some (Inr (), ?w3)"
    using save copy prune by (simp add: main_def Let_def)
  have d3: "disk ?w3 = disk ex_plain_world @ [(''/b/dump.rdb'', File ''data'' 7)]"
    by (simp add: disk_logger)
  show ?thesis
    unfolding run
    by (simp add: d3) (simp add: ex_plain_world_def ex_plain_args_def ex_args_def fs_defs)
qed

end
